theory Spec2Isabelle
  imports Complex_Main "HOL-Library.Word" "HOL-Library.Sublist"
begin

unbundle bit_operations_syntax

section \<open>Force feedback for robot control: the program of enhanced\_force\_feedback\_minimal.c\<close>

text \<open>
  The program talks to COM and DirectInput. Everything those libraries decide (whether a
  call succeeds, which interface pointer it hands back, what the tick counter reads) is an
  input of the model, collected in the record \<open>world\<close>. Everything the program does to
  them (each API call with its arguments and result, each line printed) is appended to a
  trace kept beside the three global pointers. Interface pointers are handles; a null
  pointer is \<open>None\<close>. A \<open>DWORD\<close> is a 32-bit word, so tick arithmetic wraps as in C.
\<close>

subsection \<open>Constants\<close>

type_synonym handle = nat
type_synonym DWORD = "32 word"

definition FEEDBACK_NONE :: int where "FEEDBACK_NONE = 0"
definition FEEDBACK_OBSTACLE :: int where "FEEDBACK_OBSTACLE = 1"
definition FEEDBACK_MOVEMENT :: int where "FEEDBACK_MOVEMENT = 2"

definition FORCE_STRENGTH :: int where "FORCE_STRENGTH = 1"
definition OSCILLATION_DURATION :: DWORD where "OSCILLATION_DURATION = 300"

text \<open>Values of the DirectInput SDK header dinput.h, which the program includes.\<close>

definition DI_FFNOMINALMAX :: int where "DI_FFNOMINALMAX = 10000"
definition DIEFF_OBJECTOFFSETS :: DWORD where "DIEFF_OBJECTOFFSETS = 0x2"
definition DIEFF_CARTESIAN :: DWORD where "DIEFF_CARTESIAN = 0x10"
definition DIEB_NOTRIGGER :: DWORD where "DIEB_NOTRIGGER = 0xFFFFFFFF"
definition DIJOFS_X :: DWORD where "DIJOFS_X = 0"
definition DIJOFS_Y :: DWORD where "DIJOFS_Y = 4"

subsection \<open>The effect descriptor, the trace and the globals\<close>

text \<open>
  The fields of \<open>DIEFFECT\<close> that the program sets, with the magnitude of the
  \<open>DICONSTANTFORCE\<close> it points to. The two \<open>sizeof\<close> fields (\<open>dwSize\<close>,
  \<open>cbTypeSpecificParams\<close>) depend on the memory layout and are left out.
\<close>

record DIEFFECT =
  dwFlags :: DWORD
  dwDuration :: DWORD
  dwSamplePeriod :: DWORD
  dwGain :: DWORD
  dwTriggerButton :: DWORD
  dwTriggerRepeatInterval :: DWORD
  cAxes :: DWORD
  rgdwAxes :: "DWORD list"
  rglDirection :: "int list"
  lpEnvelope :: "handle option"
  lMagnitude :: int
  dwStartDelay :: DWORD

text \<open>
  One event per call that leaves the program. A call that creates an interface carries the
  handle it returned (\<open>None\<close>: the call failed); a call whose \<open>HRESULT\<close> the program
  tests carries \<open>True\<close> for \<open>SUCCEEDED\<close>. \<open>Printf\<close> carries the format string
  without its final newline; the arguments printed are not recorded.
\<close>

datatype event =
    Printf string
  | CoInitialize bool
  | CoUninitialize
  | DirectInput8Create "handle option"
  | IDirectInput8_EnumDevices bool
  | IDirectInput8_CreateDevice "handle option"
  | IDirectInputDevice8_SetCooperativeLevel handle bool
  | IDirectInputDevice8_SetDataFormat handle bool
  | IDirectInputDevice8_Acquire handle bool
  | GetTickCount DWORD
  | Sleep nat
  | IDirectInputDevice8_CreateEffect handle DIEFFECT "handle option"
  | IDirectInputEffect_Start handle bool
  | IDirectInputEffect_Stop handle
  | IDirectInputEffect_Release handle
  | IDirectInputDevice8_Unacquire handle
  | IDirectInputDevice8_Release handle
  | IDirectInput8_Release handle

text \<open>
  The global variables. \<open>g_bRunning\<close> is never read or written after its
  initialisation and is left out.
\<close>

record globals =
  g_pDI :: "handle option"
  g_pJoystick :: "handle option"
  g_pEffect :: "handle option"
  trace :: "event list"

definition emit :: "event \<Rightarrow> globals \<Rightarrow> globals" where
  "emit e g = g\<lparr>trace := trace g @ [e]\<rparr>"

definition startup :: globals where
  "startup = \<lparr>g_pDI = None, g_pJoystick = None, g_pEffect = None, trace = []\<rparr>"

subsection \<open>CleanupAll\<close>

definition CleanupAll :: "globals \<Rightarrow> globals" where
  "CleanupAll g =
     (let g1 = (case g_pEffect g of
                  None \<Rightarrow> g
                | Some e \<Rightarrow> (emit (IDirectInputEffect_Release e) g)\<lparr>g_pEffect := None\<rparr>);
          g2 = (case g_pJoystick g1 of
                  None \<Rightarrow> g1
                | Some j \<Rightarrow> (emit (IDirectInputDevice8_Release j)
                              (emit (IDirectInputDevice8_Unacquire j) g1))\<lparr>g_pJoystick := None\<rparr>);
          g3 = (case g_pDI g2 of
                  None \<Rightarrow> g2
                | Some d \<Rightarrow> (emit (IDirectInput8_Release d) g2)\<lparr>g_pDI := None\<rparr>)
      in emit (Printf ''Cleanup complete'') g3)"

subsection \<open>What the platform decides\<close>

text \<open>
  One pass of the polling loop reads the tick counter once, and creates and starts at most
  one effect. A \<open>poll\<close> holds the reading and the outcome those two calls have if the
  pass makes them. The readings are a finite list: a run whose loop is still going when
  the list ends has no result (\<open>None\<close>).
\<close>

record poll =
  tick :: DWORD
  hr_CreateEffect :: "handle option"
  hr_Start :: bool

text \<open>
  \<open>w_devices\<close> lists, in enumeration order, the attached force-feedback game
  controllers that \<open>EnumDevices\<close> offers to the callback, each with the outcome of
  \<open>CreateDevice\<close> on it.
\<close>

record world =
  w_CoInitialize :: bool
  w_DirectInput8Create :: "handle option"
  w_devices :: "handle option list"
  w_EnumDevices :: bool
  w_SetCooperativeLevel :: bool
  w_SetDataFormat :: bool
  w_Acquire :: bool
  w_startTime :: DWORD
  w_polls :: "poll list"

subsection \<open>InitializeDirectInput and the enumeration callback\<close>

text \<open>
  The callback returns \<open>DIENUM_STOP\<close> (\<open>False\<close>) or \<open>DIENUM_CONTINUE\<close>
  (\<open>True\<close>). A failed \<open>CreateDevice\<close> or \<open>DirectInput8Create\<close> leaves the
  pointer it was given, null at that point, as it is.
  In \<open>InitializeDirectInput\<close> the test \<open>FAILED(hr) || g_pJoystick == NULL\<close>
  after the enumeration is the pair of a \<open>case\<close> on the pointer and an \<open>if\<close> on
  the result; both failures print the same line.
\<close>

definition EnumDevicesCallback :: "handle option \<Rightarrow> globals \<Rightarrow> bool \<times> globals" where
  "EnumDevicesCallback candidate g =
     (let g1 = emit (Printf ''Found: %s'') g;
          g2 = emit (IDirectInput8_CreateDevice candidate) g1
      in case candidate of
           Some j \<Rightarrow>
             (False, emit (Printf ''Successfully created device interface'')
                       (g2\<lparr>g_pJoystick := Some j\<rparr>))
         | None \<Rightarrow>
             (True, emit (Printf ''Failed to create device interface. Error: 0x%lx'') g2))"

text \<open>\<open>EnumDevices\<close> calls the callback on each device until it answers stop.\<close>

fun enum_devices :: "handle option list \<Rightarrow> globals \<Rightarrow> globals" where
  "enum_devices [] g = g"
| "enum_devices (c # cs) g =
     (case EnumDevicesCallback c g of
        (True, g') \<Rightarrow> enum_devices cs g'
      | (False, g') \<Rightarrow> g')"

definition InitializeDirectInput :: "world \<Rightarrow> globals \<Rightarrow> bool \<times> globals" where
  "InitializeDirectInput w g =
     (let g1 = emit (DirectInput8Create (w_DirectInput8Create w)) g
      in case w_DirectInput8Create w of
           None \<Rightarrow> (False, emit (Printf ''Failed to create DirectInput object. Error: 0x%lx'') g1)
         | Some d \<Rightarrow>
             (let g2 = emit (Printf ''Looking for Force Feedback joystick...'') (g1\<lparr>g_pDI := Some d\<rparr>);
                  g3 = emit (IDirectInput8_EnumDevices (w_EnumDevices w)) (enum_devices (w_devices w) g2)
              in case g_pJoystick g3 of
                   None \<Rightarrow>
                     (False, emit (Printf ''Failed to find Force Feedback joystick. Error: 0x%lx'') g3)
                 | Some j \<Rightarrow>
                     if \<not> w_EnumDevices w then
                       (False, emit (Printf ''Failed to find Force Feedback joystick. Error: 0x%lx'') g3)
                     else
                       (let g4 = emit (IDirectInputDevice8_SetCooperativeLevel j (w_SetCooperativeLevel w)) g3
                        in if \<not> w_SetCooperativeLevel w then
                             (False, emit (Printf ''Failed to set cooperative level. Error: 0x%lx'') g4)
                           else
                             (let g5 = emit (IDirectInputDevice8_SetDataFormat j (w_SetDataFormat w)) g4
                              in if \<not> w_SetDataFormat w then
                                   (False, emit (Printf ''Failed to set data format. Error: 0x%lx'') g5)
                                 else
                                   (let g6 = emit (IDirectInputDevice8_Acquire j (w_Acquire w)) g5
                                    in if \<not> w_Acquire w then
                                         (False, emit (Printf ''Failed to acquire joystick. Error: 0x%lx'') g6)
                                       else
                                         (True, emit (Printf ''DirectInput initialized successfully'') g6))))))"

subsection \<open>ApplyGentleOscillation\<close>

text \<open>
  The \<open>switch\<close> on the feedback type: the switch interval, the strength multiplier
  (a \<open>float\<close> that only ever holds 0 or 1, both exact) and the line printed.
\<close>

definition configure_pattern :: "int \<Rightarrow> int \<times> real \<times> string" where
  "configure_pattern feedbackType =
     (if feedbackType = FEEDBACK_OBSTACLE then (25, 1, ''obstacle feedback pattern...'')
      else if feedbackType = FEEDBACK_MOVEMENT then
        (25, 1, ''Applying fast movement feedback pattern...'')
      else (0, 0, ''Applying default feedback pattern...''))"

text \<open>The cast \<open>(LONG)\<close> of a floating value drops the fraction.\<close>

definition LONG_of_float :: "real \<Rightarrow> int" where
  "LONG_of_float x = (if 0 \<le> x then \<lfloor>x\<rfloor> else \<lceil>x\<rceil>)"

definition constant_force :: "int \<Rightarrow> int \<Rightarrow> real \<Rightarrow> DIEFFECT" where
  "constant_force direction switchInterval strengthMultiplier =
     \<lparr>dwFlags = DIEFF_CARTESIAN OR DIEFF_OBJECTOFFSETS,
      dwDuration = word_of_int (switchInterval * 1000),
      dwSamplePeriod = 0,
      dwGain = word_of_int DI_FFNOMINALMAX,
      dwTriggerButton = DIEB_NOTRIGGER,
      dwTriggerRepeatInterval = 0,
      cAxes = 2,
      rgdwAxes = [DIJOFS_X, DIJOFS_Y],
      rglDirection = [direction, 0],
      lpEnvelope = None,
      lMagnitude = LONG_of_float (real_of_int (DI_FFNOMINALMAX * FORCE_STRENGTH) * strengthMultiplier),
      dwStartDelay = 0\<rparr>"

text \<open>
  One pass of the \<open>while\<close> loop, from the reading of the tick counter in the loop
  condition to the \<open>Sleep\<close>. The pass either goes round again with the direction
  and the last switch time it leaves (\<open>Again\<close>), or ends the loop because the
  reading is no longer below \<open>endTime\<close> (\<open>Leave LoopDone\<close>), or leaves the
  function by the \<open>return\<close> after a failed \<open>CreateEffect\<close>
  (\<open>Leave Returned\<close>). The comparison
  \<open>currentTime - lastSwitchTime > switchInterval\<close> is unsigned, the \<open>int\<close>
  converted to \<open>DWORD\<close>. \<open>CreateEffect\<close> is called through \<open>g_pJoystick\<close>:
  through a null pointer the call has no defined result (\<open>Fault\<close>). A failed
  \<open>CreateEffect\<close> leaves \<open>g_pEffect\<close>, null at that point, as it is.
\<close>

datatype loop_exit = LoopDone | Returned

datatype pass_result = Again int DWORD globals | Leave loop_exit globals | Fault

definition oscillation_pass ::
  "DWORD \<Rightarrow> int \<Rightarrow> real \<Rightarrow> poll \<Rightarrow> int \<Rightarrow> DWORD \<Rightarrow> globals \<Rightarrow> pass_result" where
  "oscillation_pass endTime switchInterval strengthMultiplier p direction lastSwitchTime g =
     (let currentTime = tick p;
          g1 = emit (GetTickCount currentTime) g
      in if currentTime < endTime then
           if currentTime - lastSwitchTime > word_of_int switchInterval then
             (let direction' = direction * (- 1);
                  lastSwitchTime' = currentTime;
                  eff = constant_force direction' switchInterval strengthMultiplier;
                  g2 = (case g_pEffect g1 of
                          None \<Rightarrow> g1
                        | Some e \<Rightarrow> (emit (IDirectInputEffect_Release e) g1)\<lparr>g_pEffect := None\<rparr>)
              in case g_pJoystick g2 of
                   None \<Rightarrow> Fault
                 | Some j \<Rightarrow>
                     (let g3 = emit (IDirectInputDevice8_CreateEffect j eff (hr_CreateEffect p)) g2
                      in case hr_CreateEffect p of
                           None \<Rightarrow>
                             Leave Returned
                               (emit (Printf ''Failed to create oscillation effect. Error: 0x%lx'') g3)
                         | Some h \<Rightarrow>
                             (let g4 = emit (IDirectInputEffect_Start h (hr_Start p))
                                         (g3\<lparr>g_pEffect := Some h\<rparr>);
                                  g5 = (if \<not> hr_Start p then
                                          emit (Printf ''Failed to start oscillation effect. Error: 0x%lx'') g4
                                        else g4)
                              in Again direction' lastSwitchTime' (emit (Sleep 10) g5))))
           else Again direction lastSwitchTime (emit (Sleep 10) g1)
         else Leave LoopDone g1)"

text \<open>
  The loop takes one reading per pass. When the readings run out while the loop is still
  going, or a pass faults, the loop has no result.
\<close>

fun oscillation_loop ::
  "DWORD \<Rightarrow> int \<Rightarrow> real \<Rightarrow> poll list \<Rightarrow> int \<Rightarrow> DWORD \<Rightarrow> globals \<Rightarrow> (loop_exit \<times> globals) option" where
  "oscillation_loop endTime switchInterval strengthMultiplier [] direction lastSwitchTime g = None"
| "oscillation_loop endTime switchInterval strengthMultiplier (p # ps) direction lastSwitchTime g =
     (case oscillation_pass endTime switchInterval strengthMultiplier p direction lastSwitchTime g of
        Again direction' lastSwitchTime' g' \<Rightarrow>
          oscillation_loop endTime switchInterval strengthMultiplier ps direction' lastSwitchTime' g'
      | Leave how g' \<Rightarrow> Some (how, g')
      | Fault \<Rightarrow> None)"

text \<open>The block after the loop: stop the effect if there is one.\<close>

definition stop_effect :: "globals \<Rightarrow> globals" where
  "stop_effect g = (case g_pEffect g of None \<Rightarrow> g | Some e \<Rightarrow> emit (IDirectInputEffect_Stop e) g)"

definition ApplyGentleOscillation :: "world \<Rightarrow> int \<Rightarrow> globals \<Rightarrow> globals option" where
  "ApplyGentleOscillation w feedbackType g =
     (let startTime = w_startTime w;
          g1 = emit (GetTickCount startTime) g;
          endTime = startTime + OSCILLATION_DURATION;
          direction = 1;
          (switchInterval, strengthMultiplier, line) = configure_pattern feedbackType;
          g2 = emit (Printf line) g1;
          lastSwitchTime = startTime
      in case oscillation_loop endTime switchInterval strengthMultiplier (w_polls w)
                direction lastSwitchTime g2 of
           None \<Rightarrow> None
         | Some (Returned, g3) \<Rightarrow> Some g3
         | Some (LoopDone, g3) \<Rightarrow> Some (stop_effect g3))"

subsection \<open>main\<close>

text \<open>
  The argument is \<open>None\<close> when \<open>argc\<close> is 1 and otherwise the \<open>int\<close> that
  \<open>atoi(argv[1])\<close> returns.
\<close>

definition parse_feedbackType :: "int option \<Rightarrow> int" where
  "parse_feedbackType arg =
     (case arg of
        None \<Rightarrow> FEEDBACK_NONE
      | Some n \<Rightarrow> if n < FEEDBACK_NONE \<or> n > FEEDBACK_MOVEMENT then FEEDBACK_NONE else n)"

definition main :: "world \<Rightarrow> int option \<Rightarrow> (int \<times> globals) option" where
  "main w arg =
     (let feedbackType = parse_feedbackType arg;
          g0 = emit (Printf ''Minimal Force Feedback - Type: %d'') startup;
          g1 = emit (CoInitialize (w_CoInitialize w)) g0
      in if \<not> w_CoInitialize w then
           Some (1, emit (Printf ''Failed to initialize COM. Error: 0x%lx'') g1)
         else
           (case InitializeDirectInput w g1 of
              (False, g2) \<Rightarrow> Some (1, emit CoUninitialize (CleanupAll g2))
            | (True, g2) \<Rightarrow>
                (case (if feedbackType \<noteq> FEEDBACK_NONE then ApplyGentleOscillation w feedbackType g2
                       else Some (emit (Printf ''No feedback requested'') g2)) of
                   None \<Rightarrow> None
                 | Some g3 \<Rightarrow> Some (0, emit CoUninitialize (CleanupAll g3)))))"

section \<open>Reading a trace\<close>

text \<open>
  The interfaces that exist after a trace: each successful creating call adds the handle
  it returned, each \<open>Release\<close> removes the handle it is given. (Every interface is
  created with one reference and the program never adds one, so a \<open>Release\<close>
  destroys it.)
\<close>

fun effects_step :: "handle list \<Rightarrow> event \<Rightarrow> handle list" where
  "effects_step live (IDirectInputDevice8_CreateEffect j eff (Some h)) = h # live"
| "effects_step live (IDirectInputEffect_Release h) = remove1 h live"
| "effects_step live _ = live"

definition live_effects :: "event list \<Rightarrow> handle list" where
  "live_effects tr = foldl effects_step [] tr"

fun devices_step :: "handle list \<Rightarrow> event \<Rightarrow> handle list" where
  "devices_step live (IDirectInput8_CreateDevice (Some j)) = j # live"
| "devices_step live (IDirectInputDevice8_Release j) = remove1 j live"
| "devices_step live _ = live"

definition live_devices :: "event list \<Rightarrow> handle list" where
  "live_devices tr = foldl devices_step [] tr"

fun contexts_step :: "handle list \<Rightarrow> event \<Rightarrow> handle list" where
  "contexts_step live (DirectInput8Create (Some d)) = d # live"
| "contexts_step live (IDirectInput8_Release d) = remove1 d live"
| "contexts_step live _ = live"

definition live_contexts :: "event list \<Rightarrow> handle list" where
  "live_contexts tr = foldl contexts_step [] tr"

text \<open>The interface a global pointer holds, as a list.\<close>

definition held :: "handle option \<Rightarrow> handle list" where
  "held p = (case p of None \<Rightarrow> [] | Some h \<Rightarrow> [h])"

text \<open>How often \<open>CleanupAll\<close> ran: it alone prints this line, once, as its last act.\<close>

definition cleanup_runs :: "event list \<Rightarrow> nat" where
  "cleanup_runs tr = count_list tr (Printf ''Cleanup complete'')"

subsection \<open>Example runs\<close>

text \<open>A session in which nothing has been created, and one that holds everything.\<close>

definition session_partial :: globals where
  "session_partial = \<lparr>g_pDI = Some 1, g_pJoystick = None, g_pEffect = None,
     trace = [DirectInput8Create (Some 1)]\<rparr>"

definition session_full :: globals where
  "session_full = \<lparr>g_pDI = Some 1, g_pJoystick = Some 2, g_pEffect = Some 3, trace = []\<rparr>"

subsection \<open>Kinds of events\<close>

text \<open>
  The events of the set-up phase and those of the oscillation phase. Neither kind contains
  the closing line of \<open>CleanupAll\<close>.
\<close>

fun setup_event :: "event \<Rightarrow> bool" where
  "setup_event (Printf s) = (s \<noteq> ''Cleanup complete'')"
| "setup_event (DirectInput8Create _) = True"
| "setup_event (IDirectInput8_EnumDevices _) = True"
| "setup_event (IDirectInput8_CreateDevice _) = True"
| "setup_event (IDirectInputDevice8_SetCooperativeLevel _ _) = True"
| "setup_event (IDirectInputDevice8_SetDataFormat _ _) = True"
| "setup_event (IDirectInputDevice8_Acquire _ _) = True"
| "setup_event _ = False"

fun oscillation_event :: "event \<Rightarrow> bool" where
  "oscillation_event (Printf s) = (s \<noteq> ''Cleanup complete'')"
| "oscillation_event (GetTickCount _) = True"
| "oscillation_event (Sleep _) = True"
| "oscillation_event (IDirectInputDevice8_CreateEffect _ _ _) = True"
| "oscillation_event (IDirectInputEffect_Start _ _) = True"
| "oscillation_event (IDirectInputEffect_Stop _) = True"
| "oscillation_event (IDirectInputEffect_Release _) = True"
| "oscillation_event _ = False"

text \<open>The second state has the trace of the first, followed by events of one kind.\<close>

definition extends :: "(event \<Rightarrow> bool) \<Rightarrow> globals \<Rightarrow> globals \<Rightarrow> bool" where
  "extends P g g' = (\<exists>evs. trace g' = trace g @ evs \<and> list_all P evs)"

text \<open>
  Every step of \<open>InitializeDirectInput\<close> succeeds: the context is created, the
  enumeration succeeds and binds one of the devices it is offered, and the cooperative
  level, the data format and the acquisition succeed.
\<close>

definition init_succeeds :: "world \<Rightarrow> bool" where
  "init_succeeds w = (w_DirectInput8Create w \<noteq> None \<and> (\<exists>j. Some j \<in> set (w_devices w)) \<and> w_EnumDevices w
     \<and> w_SetCooperativeLevel w \<and> w_SetDataFormat w \<and> w_Acquire w)"

subsection \<open>Worlds and states used in examples\<close>

text \<open>The globals after the banner line and a successful \<open>CoInitialize\<close>.\<close>

definition after_CoInitialize :: globals where
  "after_CoInitialize =
     emit (CoInitialize True) (emit (Printf ''Minimal Force Feedback - Type: %d'') startup)"

text \<open>
  A world in which every call succeeds. The first device offered cannot be bound, the
  second can. The tick counter reads 1000 at the start; the loop reads 1010 (too early to
  switch), 1030 and 1060 (two switches, the second \<open>Start\<close> failing) and 1300 (the
  end).
\<close>

definition world_ok :: world where
  "world_ok = \<lparr>w_CoInitialize = True, w_DirectInput8Create = Some 1, w_devices = [None, Some 2, Some 3],
     w_EnumDevices = True, w_SetCooperativeLevel = True, w_SetDataFormat = True, w_Acquire = True,
     w_startTime = 1000,
     w_polls = [\<lparr>tick = 1010, hr_CreateEffect = Some 4, hr_Start = True\<rparr>,
                \<lparr>tick = 1030, hr_CreateEffect = Some 5, hr_Start = True\<rparr>,
                \<lparr>tick = 1060, hr_CreateEffect = Some 6, hr_Start = False\<rparr>,
                \<lparr>tick = 1300, hr_CreateEffect = Some 7, hr_Start = True\<rparr>]\<rparr>"

text \<open>The same world with a failing \<open>Acquire\<close>, and with a failing \<open>CoInitialize\<close>.\<close>

definition world_acquire_fails :: world where
  "world_acquire_fails = world_ok\<lparr>w_Acquire := False\<rparr>"

definition world_com_fails :: world where
  "world_com_fails = world_ok\<lparr>w_CoInitialize := False\<rparr>"

text \<open>The interfaces alive after the trace are those the global pointers hold.\<close>

definition consistent :: "globals \<Rightarrow> bool" where
  "consistent g = (live_effects (trace g) = held (g_pEffect g)
     \<and> live_devices (trace g) = held (g_pJoystick g)
     \<and> live_contexts (trace g) = held (g_pDI g))"

subsection \<open>One effect at a time\<close>

text \<open>
  A check that runs along a trace with the list of effects alive so far: at each
  \<open>CreateEffect\<close> call no effect is alive, and after each event at most one is.
\<close>

fun creates_effect :: "event \<Rightarrow> bool" where
  "creates_effect (IDirectInputDevice8_CreateEffect j eff r) = True"
| "creates_effect _ = False"

fun one_at_a_time :: "handle list \<Rightarrow> event list \<Rightarrow> bool" where
  "one_at_a_time live [] = True"
| "one_at_a_time live (e # es) =
     ((if creates_effect e then live = [] else True)
      \<and> length (effects_step live e) \<le> 1
      \<and> one_at_a_time (effects_step live e) es)"

text \<open>The trace of the run in \<open>world_ok\<close> with argument 1.\<close>

definition run_ok :: "event list" where
  "run_ok = (case main world_ok (Some 1) of None \<Rightarrow> [] | Some (ec, g) \<Rightarrow> trace g)"

subsection \<open>What the loop can do\<close>

text \<open>
  The events a pass of the loop can produce with switch interval \<open>si\<close> and
  strength multiplier \<open>sm\<close>.
\<close>

fun pass_event :: "int \<Rightarrow> real \<Rightarrow> event \<Rightarrow> bool" where
  "pass_event si sm (GetTickCount t) = True"
| "pass_event si sm (Sleep n) = (n = 10)"
| "pass_event si sm (IDirectInputEffect_Release e) = True"
| "pass_event si sm (IDirectInputDevice8_CreateEffect j eff r) =
     (eff = constant_force 1 si sm \<or> eff = constant_force (- 1) si sm)"
| "pass_event si sm (IDirectInputEffect_Start h ok) = True"
| "pass_event si sm (Printf s) =
     (s = ''Failed to create oscillation effect. Error: 0x%lx''
      \<or> s = ''Failed to start oscillation effect. Error: 0x%lx'')"
| "pass_event si sm _ = False"

text \<open>Events other than a failed \<open>CreateEffect\<close> and a \<open>Stop\<close>.\<close>

fun quiet :: "event \<Rightarrow> bool" where
  "quiet (IDirectInputDevice8_CreateEffect j eff None) = False"
| "quiet (IDirectInputEffect_Stop e) = False"
| "quiet _ = True"

text \<open>
  How the loop ended, read from the traces before and after it. When the reading was no
  longer below the end time, the loop made no failed creation and never stopped an effect.
  When it returned early, the effect pointer is null and the last two events are the failed
  \<open>CreateEffect\<close> call through the joystick pointer and the line that reports it.
\<close>

definition ended :: "globals \<Rightarrow> loop_exit \<Rightarrow> globals \<Rightarrow> bool" where
  "ended g how g' =
     (case how of
        LoopDone \<Rightarrow> extends quiet g g'
      | Returned \<Rightarrow>
          g_pEffect g' = None
          \<and> (\<exists>evs j eff. list_all quiet evs \<and> g_pJoystick g' = Some j
                \<and> trace g' = trace g @ evs @ [IDirectInputDevice8_CreateEffect j eff None,
                                  Printf ''Failed to create oscillation effect. Error: 0x%lx'']))"

text \<open>
  Every effect descriptor handed to \<open>CreateEffect\<close> is the constant force built
  from the interval and the multiplier, in one of the two directions.
\<close>

fun submits :: "int \<Rightarrow> real \<Rightarrow> event \<Rightarrow> bool" where
  "submits si sm (IDirectInputDevice8_CreateEffect j eff r) =
     (eff = constant_force 1 si sm \<or> eff = constant_force (- 1) si sm)"
| "submits si sm _ = True"

text \<open>A \<open>CreateEffect\<close> call that failed.\<close>

fun failed_creation :: "event \<Rightarrow> bool" where
  "failed_creation (IDirectInputDevice8_CreateEffect j eff None) = True"
| "failed_creation _ = False"

text \<open>The effects that a trace stops, in the order of the \<open>Stop\<close> calls.\<close>

fun stopped :: "event list \<Rightarrow> handle list" where
  "stopped [] = []"
| "stopped (IDirectInputEffect_Stop h # es) = h # stopped es"
| "stopped (e # es) = stopped es"

text \<open>
  A world in which the second \<open>CreateEffect\<close> of the loop fails. The readings go
  on after that one: 1090, still below the end time, and 1300.
\<close>

definition world_create_fails :: world where
  "world_create_fails = world_ok\<lparr>w_polls :=
     [\<lparr>tick = 1030, hr_CreateEffect = Some 5, hr_Start = True\<rparr>,
      \<lparr>tick = 1060, hr_CreateEffect = None, hr_Start = True\<rparr>,
      \<lparr>tick = 1090, hr_CreateEffect = Some 7, hr_Start = True\<rparr>,
      \<lparr>tick = 1300, hr_CreateEffect = Some 8, hr_Start = True\<rparr>]\<rparr>"

text \<open>The trace of the run in \<open>world_create_fails\<close> with argument 2.\<close>

definition run_create_fails :: "event list" where
  "run_create_fails = (case main world_create_fails (Some 2) of None \<Rightarrow> [] | Some (ec, g) \<Rightarrow> trace g)"

text \<open>
  A session with the context and the device in place and no effect yet, and the session
  that \<open>ApplyGentleOscillation\<close> leaves from it in \<open>world_create_fails\<close>.
\<close>

definition session_ready :: globals where
  "session_ready = \<lparr>g_pDI = Some 1, g_pJoystick = Some 2, g_pEffect = None, trace = []\<rparr>"

definition session_after_failure :: globals where
  "session_after_failure =
     (case ApplyGentleOscillation world_create_fails 2 session_ready of
        None \<Rightarrow> session_ready
      | Some g \<Rightarrow> g)"


subsection \<open>Runs compared up to the outcome of Start\<close>

text \<open>The same world, but every \<open>Start\<close> succeeds.\<close>

definition starts_succeed :: "world \<Rightarrow> world" where
  "starts_succeed w = w\<lparr>w_polls := map (\<lambda>p. p\<lparr>hr_Start := True\<rparr>) (w_polls w)\<rparr>"

text \<open>
  A trace with the outcome of every \<open>Start\<close> call and every line reporting a failed
  \<open>Start\<close> taken out.
\<close>

fun start_blind :: "event \<Rightarrow> event" where
  "start_blind (IDirectInputEffect_Start h ok) = IDirectInputEffect_Start h True"
| "start_blind e = e"

definition forget_start :: "event list \<Rightarrow> event list" where
  "forget_start tr =
     map start_blind
       (filter (\<lambda>e. e \<noteq> Printf ''Failed to start oscillation effect. Error: 0x%lx'') tr)"




subsection \<open>The switches of a run\<close>

text \<open>
  The switches in a trace: for each \<open>CreateEffect\<close> call, the reading of the tick
  counter that came last before it and the direction vector of the effect handed over.
  The first argument is the reading assumed before the first one of the trace.
\<close>

fun switches :: "DWORD \<Rightarrow> event list \<Rightarrow> (DWORD \<times> int list) list" where
  "switches t [] = []"
| "switches t (GetTickCount t' # es) = switches t' es"
| "switches t (IDirectInputDevice8_CreateEffect j eff r # es) = (t, rglDirection eff) # switches t es"
| "switches t (e # es) = switches t es"

text \<open>The last reading of the tick counter in a trace.\<close>

fun reading :: "DWORD \<Rightarrow> event list \<Rightarrow> DWORD" where
  "reading t [] = t"
| "reading t (GetTickCount t' # es) = reading t' es"
| "reading t (e # es) = reading t es"



section \<open>Properties\<close>

subsection \<open>Basic facts\<close>

lemma trace_emit [simp]: "trace (emit e g) = trace g @ [e]"
  by (simp add: emit_def)

lemma g_pDI_emit [simp]: "g_pDI (emit e g) = g_pDI g"
  by (simp add: emit_def)

lemma g_pJoystick_emit [simp]: "g_pJoystick (emit e g) = g_pJoystick g"
  by (simp add: emit_def)

lemma g_pEffect_emit [simp]: "g_pEffect (emit e g) = g_pEffect g"
  by (simp add: emit_def)

lemma emit_update_commute [simp]:
  "emit e (g\<lparr>g_pEffect := x\<rparr>) = (emit e g)\<lparr>g_pEffect := x\<rparr>"
  "emit e (g\<lparr>g_pJoystick := y\<rparr>) = (emit e g)\<lparr>g_pJoystick := y\<rparr>"
  "emit e (g\<lparr>g_pDI := z\<rparr>) = (emit e g)\<lparr>g_pDI := z\<rparr>"
  by (simp_all add: emit_def)

subsection \<open>CleanupAll\<close>

lemma CleanupAll_pointers:
  "g_pEffect (CleanupAll g) = None" "g_pJoystick (CleanupAll g) = None" "g_pDI (CleanupAll g) = None"
  by (simp_all add: CleanupAll_def Let_def split: option.splits)

lemma CleanupAll_trace:
  "trace (CleanupAll g) =
     trace g
     @ (case g_pEffect g of None \<Rightarrow> [] | Some e \<Rightarrow> [IDirectInputEffect_Release e])
     @ (case g_pJoystick g of None \<Rightarrow> []
        | Some j \<Rightarrow> [IDirectInputDevice8_Unacquire j, IDirectInputDevice8_Release j])
     @ (case g_pDI g of None \<Rightarrow> [] | Some d \<Rightarrow> [IDirectInput8_Release d])
     @ [Printf ''Cleanup complete'']"
  by (simp add: CleanupAll_def Let_def split: option.splits)

lemma CleanupAll_released:
  "g_pEffect g = None \<Longrightarrow> g_pJoystick g = None \<Longrightarrow> g_pDI g = None \<Longrightarrow>
   CleanupAll g = emit (Printf ''Cleanup complete'') g"
  by (simp add: CleanupAll_def)

text \<open>
  Claim C9. \<open>CleanupAll\<close> is idempotent and safe on a partly initialised session: it
  makes a release call for each global pointer that is not null and for no other, in the
  order effect, device (unacquired first), context; it leaves the three pointers null; and a
  second call finds nothing to release, so it leaves the pointers null, makes no call and
  only prints its closing line again.
\<close>

theorem CleanupAll_idempotent:
  "g_pEffect (CleanupAll g) = None \<and> g_pJoystick (CleanupAll g) = None \<and> g_pDI (CleanupAll g) = None
   \<and> trace (CleanupAll g) =
       trace g
       @ (case g_pEffect g of None \<Rightarrow> [] | Some e \<Rightarrow> [IDirectInputEffect_Release e])
       @ (case g_pJoystick g of None \<Rightarrow> []
          | Some j \<Rightarrow> [IDirectInputDevice8_Unacquire j, IDirectInputDevice8_Release j])
       @ (case g_pDI g of None \<Rightarrow> [] | Some d \<Rightarrow> [IDirectInput8_Release d])
       @ [Printf ''Cleanup complete'']
   \<and> CleanupAll (CleanupAll g) = emit (Printf ''Cleanup complete'') (CleanupAll g)"
  by (simp add: CleanupAll_pointers CleanupAll_trace CleanupAll_released)

theorem CleanupAll_idempotent_witness:
  "trace (CleanupAll session_partial) =
     [DirectInput8Create (Some 1), IDirectInput8_Release 1, Printf ''Cleanup complete'']
   \<and> trace (CleanupAll session_full) =
     [IDirectInputEffect_Release 3, IDirectInputDevice8_Unacquire 2, IDirectInputDevice8_Release 2,
      IDirectInput8_Release 1, Printf ''Cleanup complete'']
   \<and> trace (CleanupAll (CleanupAll session_full)) =
     [IDirectInputEffect_Release 3, IDirectInputDevice8_Unacquire 2, IDirectInputDevice8_Release 2,
      IDirectInput8_Release 1, Printf ''Cleanup complete'', Printf ''Cleanup complete'']
   \<and> g_pDI (CleanupAll (CleanupAll session_full)) = None"
  using CleanupAll_idempotent [of session_partial] CleanupAll_idempotent [of session_full]
  by (simp add: session_partial_def session_full_def)

subsection \<open>Traces\<close>

lemma live_effects_append [simp]: "live_effects (tr @ evs) = foldl effects_step (live_effects tr) evs"
  by (simp add: live_effects_def)
lemma live_devices_append [simp]: "live_devices (tr @ evs) = foldl devices_step (live_devices tr) evs"
  by (simp add: live_devices_def)
lemma live_contexts_append [simp]: "live_contexts (tr @ evs) = foldl contexts_step (live_contexts tr) evs"
  by (simp add: live_contexts_def)
lemma cleanup_runs_append [simp]: "cleanup_runs (tr @ evs) = cleanup_runs tr + cleanup_runs evs"
  by (induction tr) (simp_all add: cleanup_runs_def)
lemma cleanup_runs_Cons [simp]:
  "cleanup_runs (e # evs) = (if e = Printf ''Cleanup complete'' then 1 else 0) + cleanup_runs evs"
  by (simp add: cleanup_runs_def)
lemma live_Nil [simp]: "live_effects [] = []" "live_devices [] = []" "live_contexts [] = []" "cleanup_runs [] = 0"
  by (simp_all add: live_effects_def live_devices_def live_contexts_def cleanup_runs_def)

lemma setup_effects_step: "setup_event e \<Longrightarrow> effects_step live e = live"
  by (cases e) simp_all
lemma oscillation_devices_step: "oscillation_event e \<Longrightarrow> devices_step live e = live"
  by (cases e) simp_all
lemma oscillation_contexts_step: "oscillation_event e \<Longrightarrow> contexts_step live e = live"
  by (cases e) simp_all

lemma setup_live_effects: "list_all setup_event evs \<Longrightarrow> foldl effects_step live evs = live"
  by (induction evs) (simp_all add: setup_effects_step)
lemma setup_cleanup_runs: "list_all setup_event evs \<Longrightarrow> cleanup_runs evs = 0"
  by (induction evs) auto
lemma oscillation_live_devices: "list_all oscillation_event evs \<Longrightarrow> foldl devices_step live evs = live"
  by (induction evs) (simp_all add: oscillation_devices_step)
lemma oscillation_live_contexts: "list_all oscillation_event evs \<Longrightarrow> foldl contexts_step live evs = live"
  by (induction evs) (simp_all add: oscillation_contexts_step)
lemma oscillation_cleanup_runs: "list_all oscillation_event evs \<Longrightarrow> cleanup_runs evs = 0"
  by (induction evs) auto

subsection \<open>InitializeDirectInput\<close>

lemma extends_refl [simp]: "extends P g g"
  by (simp add: extends_def)
lemma extends_emit: "extends P g g' \<Longrightarrow> P e \<Longrightarrow> extends P g (emit e g')"
  by (auto simp: extends_def)
lemma extends_update [simp]:
  "extends P g (g'\<lparr>g_pEffect := x\<rparr>) = extends P g g'"
  "extends P g (g'\<lparr>g_pJoystick := x\<rparr>) = extends P g g'"
  "extends P g (g'\<lparr>g_pDI := x\<rparr>) = extends P g g'"
  by (simp_all add: extends_def)
lemma extends_trans: "extends P g g' \<Longrightarrow> extends P g' g'' \<Longrightarrow> extends P g g''"
  by (auto simp: extends_def)

lemma enum_devices_facts:
  "g_pJoystick g = None \<Longrightarrow> live_devices (trace g) = [] \<Longrightarrow>
   g_pDI (enum_devices cs g) = g_pDI g \<and> g_pEffect (enum_devices cs g) = g_pEffect g
   \<and> extends setup_event g (enum_devices cs g)
   \<and> live_devices (trace (enum_devices cs g)) = held (g_pJoystick (enum_devices cs g))
   \<and> live_contexts (trace (enum_devices cs g)) = live_contexts (trace g)
   \<and> (g_pJoystick (enum_devices cs g) \<noteq> None \<longleftrightarrow> (\<exists>j. Some j \<in> set cs))"
proof (induction cs arbitrary: g)
  case Nil
  then show ?case by (simp add: held_def)
next
  case (Cons c cs)
  show ?case
  proof (cases c)
    case None
    let ?g = "snd (EnumDevicesCallback None g)"
    have a: "g_pJoystick ?g = None" "live_devices (trace ?g) = []" "g_pDI ?g = g_pDI g" "g_pEffect ?g = g_pEffect g"
      "extends setup_event g ?g" "live_contexts (trace ?g) = live_contexts (trace g)"
      using Cons.prems by (simp_all add: EnumDevicesCallback_def Let_def extends_emit)
    have e: "enum_devices (c # cs) g = enum_devices cs ?g"
      using None by (simp add: EnumDevicesCallback_def Let_def)
    show ?thesis using Cons.IH [OF a(1,2)] a e None by (auto intro: extends_trans)
  next
    case (Some j)
    then show ?thesis using Cons.prems
      by (auto simp: EnumDevicesCallback_def Let_def held_def extends_emit)
  qed
qed

lemma InitializeDirectInput_tail:
  assumes "InitializeDirectInput w g = (ok, g')" and "w_DirectInput8Create w = Some d"
    and "g3 = emit (IDirectInput8_EnumDevices (w_EnumDevices w))
                (enum_devices (w_devices w)
                   (emit (Printf ''Looking for Force Feedback joystick...'')
                      ((emit (DirectInput8Create (Some d)) g)\<lparr>g_pDI := Some d\<rparr>)))"
  shows "g_pDI g' = g_pDI g3 \<and> g_pJoystick g' = g_pJoystick g3 \<and> g_pEffect g' = g_pEffect g3
    \<and> extends setup_event g3 g'
    \<and> live_devices (trace g') = live_devices (trace g3)
    \<and> live_contexts (trace g') = live_contexts (trace g3)
    \<and> ok = (g_pJoystick g3 \<noteq> None \<and> w_EnumDevices w \<and> w_SetCooperativeLevel w
             \<and> w_SetDataFormat w \<and> w_Acquire w)"
  using assms(1) unfolding InitializeDirectInput_def Let_def assms(2) option.case assms(3) [symmetric]
  by (cases "g_pJoystick g3") (auto simp: extends_def split: if_splits)

lemma InitializeDirectInput_facts:
  assumes "g_pDI g = None" "g_pJoystick g = None" "live_devices (trace g) = []" "live_contexts (trace g) = []"
    and "InitializeDirectInput w g = (ok, g')"
  shows "g_pEffect g' = g_pEffect g \<and> extends setup_event g g'
    \<and> live_devices (trace g') = held (g_pJoystick g') \<and> live_contexts (trace g') = held (g_pDI g')
    \<and> ok = init_succeeds w \<and> (ok \<longrightarrow> g_pJoystick g' \<noteq> None \<and> g_pDI g' \<noteq> None)"
proof (cases "w_DirectInput8Create w")
  case None
  then show ?thesis
    using assms by (auto simp: InitializeDirectInput_def Let_def extends_emit held_def init_succeeds_def)
next
  case (Some d)
  let ?g2 = "emit (Printf ''Looking for Force Feedback joystick...'') ((emit (DirectInput8Create (Some d)) g)\<lparr>g_pDI := Some d\<rparr>)"
  let ?g3 = "emit (IDirectInput8_EnumDevices (w_EnumDevices w)) (enum_devices (w_devices w) ?g2)"
  have p: "g_pJoystick ?g2 = None" "live_devices (trace ?g2) = []" using assms by simp_all
  note E = enum_devices_facts [OF p, of "w_devices w"]
  note T = InitializeDirectInput_tail [OF assms(5) Some refl]
  have "extends setup_event g ?g2" by (simp add: extends_emit)
  moreover have "extends setup_event ?g2 ?g3" using E by (simp add: extends_emit)
  moreover have "extends setup_event ?g3 g'" using T by simp
  ultimately have x: "extends setup_event g g'" by (blast intro: extends_trans)
  have a: "g_pEffect g' = g_pEffect g" using E T by simp
  have b: "live_devices (trace g') = held (g_pJoystick g')" using E T by simp
  have c: "live_contexts (trace g') = held (g_pDI g')" using E T assms(4) by (simp add: held_def)
  have d: "ok = init_succeeds w" using E T Some by (simp add: init_succeeds_def)
  have e: "ok \<longrightarrow> g_pJoystick g' \<noteq> None \<and> g_pDI g' \<noteq> None" using E T by simp
  from x a b c d e show ?thesis by simp
qed

subsection \<open>The oscillation loop\<close>

lemma oscillation_loop_rule:
  assumes "oscillation_loop E si sm ps d l g = Some (how, g')"
    and "I d l g"
    and "\<And>p d l g d' l' g'. I d l g \<Longrightarrow> oscillation_pass E si sm p d l g = Again d' l' g' \<Longrightarrow> I d' l' g'"
    and "\<And>p d l g how g'. I d l g \<Longrightarrow> oscillation_pass E si sm p d l g = Leave how g' \<Longrightarrow> Q how g'"
  shows "Q how g'"
  using assms(1,2)
proof (induction ps arbitrary: d l g)
  case Nil
  then show ?case by simp
next
  case (Cons p ps)
  show ?case
  proof (cases "oscillation_pass E si sm p d l g")
    case (Again d' l' g1)
    with Cons.prems have "oscillation_loop E si sm ps d' l' g1 = Some (how, g')" by simp
    moreover have "I d' l' g1" using assms(3) Cons.prems(2) Again by blast
    ultimately show ?thesis by (rule Cons.IH)
  next
    case (Leave how' g1)
    with Cons.prems have "how' = how" "g1 = g'" by simp_all
    with Leave assms(4) Cons.prems(2) show ?thesis by blast
  next
    case Fault
    with Cons.prems show ?thesis by simp
  qed
qed

lemma oscillation_pass_frame:
  assumes "oscillation_pass E si sm p d l g = Again d' l' g' \<or> oscillation_pass E si sm p d l g = Leave how g'"
  shows "g_pDI g' = g_pDI g \<and> g_pJoystick g' = g_pJoystick g \<and> extends oscillation_event g g'"
  using assms
  by (auto simp: oscillation_pass_def Let_def extends_emit split: if_splits option.splits)

lemma oscillation_pass_owned:
  assumes "oscillation_pass E si sm p d l g = Again d' l' g' \<or> oscillation_pass E si sm p d l g = Leave how g'"
    and "live_effects (trace g) = held (g_pEffect g)"
  shows "live_effects (trace g') = held (g_pEffect g')"
  using assms
  by (auto simp: oscillation_pass_def Let_def held_def split: if_splits option.splits)

lemma oscillation_loop_frame:
  assumes "oscillation_loop E si sm ps d l g = Some (how, g')"
  shows "g_pDI g' = g_pDI g \<and> g_pJoystick g' = g_pJoystick g \<and> extends oscillation_event g g'"
proof (rule oscillation_loop_rule [OF assms,
        where I = "\<lambda>d l g1. g_pDI g1 = g_pDI g \<and> g_pJoystick g1 = g_pJoystick g \<and> extends oscillation_event g g1"])
  show "g_pDI g = g_pDI g \<and> g_pJoystick g = g_pJoystick g \<and> extends oscillation_event g g"
    by simp
next
  fix p d l g1 d' l' g2
  assume i: "g_pDI g1 = g_pDI g \<and> g_pJoystick g1 = g_pJoystick g \<and> extends oscillation_event g g1"
    and s: "oscillation_pass E si sm p d l g1 = Again d' l' g2"
  have "g_pDI g2 = g_pDI g1 \<and> g_pJoystick g2 = g_pJoystick g1 \<and> extends oscillation_event g1 g2"
    by (rule oscillation_pass_frame [OF disjI1 [OF s]])
  with i show "g_pDI g2 = g_pDI g \<and> g_pJoystick g2 = g_pJoystick g \<and> extends oscillation_event g g2"
    using extends_trans by metis
next
  fix p d l g1 how g2
  assume i: "g_pDI g1 = g_pDI g \<and> g_pJoystick g1 = g_pJoystick g \<and> extends oscillation_event g g1"
    and s: "oscillation_pass E si sm p d l g1 = Leave how g2"
  have "g_pDI g2 = g_pDI g1 \<and> g_pJoystick g2 = g_pJoystick g1 \<and> extends oscillation_event g1 g2"
    by (rule oscillation_pass_frame [OF disjI2 [OF s]])
  with i show "g_pDI g2 = g_pDI g \<and> g_pJoystick g2 = g_pJoystick g \<and> extends oscillation_event g g2"
    using extends_trans by metis
qed

lemma oscillation_loop_owned:
  assumes "oscillation_loop E si sm ps d l g = Some (how, g')"
    and "live_effects (trace g) = held (g_pEffect g)"
  shows "live_effects (trace g') = held (g_pEffect g')"
proof (rule oscillation_loop_rule [OF assms(1),
        where I = "\<lambda>d l g1. live_effects (trace g1) = held (g_pEffect g1)"])
  show "live_effects (trace g) = held (g_pEffect g)" by (rule assms(2))
next
  fix p d l g1 d' l' g2
  assume "live_effects (trace g1) = held (g_pEffect g1)"
    and "oscillation_pass E si sm p d l g1 = Again d' l' g2"
  then show "live_effects (trace g2) = held (g_pEffect g2)"
    using oscillation_pass_owned by blast
next
  fix p d l g1 how g2
  assume "live_effects (trace g1) = held (g_pEffect g1)"
    and "oscillation_pass E si sm p d l g1 = Leave how g2"
  then show "live_effects (trace g2) = held (g_pEffect g2)"
    using oscillation_pass_owned by blast
qed

lemma ApplyGentleOscillation_frame:
  assumes "ApplyGentleOscillation w ft g = Some g'"
  shows "g_pDI g' = g_pDI g \<and> g_pJoystick g' = g_pJoystick g \<and> extends oscillation_event g g'"
proof -
  obtain si sm line where c: "configure_pattern ft = (si, sm, line)" by (cases "configure_pattern ft") auto
  have n: "line \<noteq> ''Cleanup complete''"
    using c by (auto simp: configure_pattern_def split: if_splits)
  let ?g2 = "emit (Printf line) (emit (GetTickCount (w_startTime w)) g)"
  obtain how g3 where
    l: "oscillation_loop (w_startTime w + OSCILLATION_DURATION) si sm (w_polls w) 1 (w_startTime w) ?g2 = Some (how, g3)"
    and g': "g' = (case how of Returned \<Rightarrow> g3 | LoopDone \<Rightarrow> stop_effect g3)"
    using assms c by (auto simp: ApplyGentleOscillation_def Let_def split: option.splits loop_exit.splits)
  have "extends oscillation_event g ?g2" using n by (simp add: extends_emit)
  moreover have "extends oscillation_event g3 g'"
    using g' by (auto simp: stop_effect_def extends_emit split: loop_exit.splits option.splits)
  ultimately show ?thesis
    using oscillation_loop_frame [OF l] g'
    by (auto simp: stop_effect_def intro: extends_trans split: loop_exit.splits option.splits)
qed

lemma ApplyGentleOscillation_owned:
  assumes "ApplyGentleOscillation w ft g = Some g'" and "live_effects (trace g) = held (g_pEffect g)"
  shows "live_effects (trace g') = held (g_pEffect g')"
proof -
  obtain si sm line where c: "configure_pattern ft = (si, sm, line)" by (cases "configure_pattern ft") auto
  let ?g2 = "emit (Printf line) (emit (GetTickCount (w_startTime w)) g)"
  obtain how g3 where
    l: "oscillation_loop (w_startTime w + OSCILLATION_DURATION) si sm (w_polls w) 1 (w_startTime w) ?g2 = Some (how, g3)"
    and g': "g' = (case how of Returned \<Rightarrow> g3 | LoopDone \<Rightarrow> stop_effect g3)"
    using assms c by (auto simp: ApplyGentleOscillation_def Let_def split: option.splits loop_exit.splits)
  have "live_effects (trace ?g2) = held (g_pEffect ?g2)" using assms(2) by simp
  from oscillation_loop_owned [OF l this] show ?thesis
    using g' by (auto simp: stop_effect_def split: loop_exit.splits option.splits)
qed

subsection \<open>The paths through main\<close>

lemma after_CoInitialize_facts [simp]:
  "g_pDI after_CoInitialize = None" "g_pJoystick after_CoInitialize = None" "g_pEffect after_CoInitialize = None"
  "trace after_CoInitialize = [Printf ''Minimal Force Feedback - Type: %d'', CoInitialize True]"
  by (simp_all add: after_CoInitialize_def startup_def)

lemma main_cases [consumes 1, case_names com_failed init_failed no_feedback oscillated]:
  assumes "main w arg = Some (ec, g)"
  obtains
    "\<not> w_CoInitialize w" "ec = 1"
      "g = emit (Printf ''Failed to initialize COM. Error: 0x%lx'')
             (emit (CoInitialize False) (emit (Printf ''Minimal Force Feedback - Type: %d'') startup))"
  | g2 where "w_CoInitialize w" "InitializeDirectInput w after_CoInitialize = (False, g2)" "ec = 1"
      "g = emit CoUninitialize (CleanupAll g2)"
  | g2 where "w_CoInitialize w" "InitializeDirectInput w after_CoInitialize = (True, g2)"
      "parse_feedbackType arg = FEEDBACK_NONE" "ec = 0"
      "g = emit CoUninitialize (CleanupAll (emit (Printf ''No feedback requested'') g2))"
  | g2 g3 where "w_CoInitialize w" "InitializeDirectInput w after_CoInitialize = (True, g2)"
      "parse_feedbackType arg \<noteq> FEEDBACK_NONE"
      "ApplyGentleOscillation w (parse_feedbackType arg) g2 = Some g3" "ec = 0"
      "g = emit CoUninitialize (CleanupAll g3)"
proof (cases "w_CoInitialize w")
  case False
  with assms that(1) show ?thesis by (simp add: main_def Let_def)
next
  case True
  obtain ok g2 where i: "InitializeDirectInput w after_CoInitialize = (ok, g2)"
    by (cases "InitializeDirectInput w after_CoInitialize") auto
  show ?thesis
  proof (cases ok)
    case False
    with assms True i that(2) show ?thesis by (simp add: main_def Let_def after_CoInitialize_def)
  next
    case ok: True
    show ?thesis
    proof (cases "parse_feedbackType arg = FEEDBACK_NONE")
      case True
      with assms \<open>w_CoInitialize w\<close> i ok that(3) show ?thesis
        by (simp add: main_def Let_def after_CoInitialize_def)
    next
      case False
      with assms \<open>w_CoInitialize w\<close> i ok that(4) show ?thesis
        by (simp add: main_def Let_def after_CoInitialize_def split: option.splits)
    qed
  qed
qed

lemma InitializeDirectInput_start:
  assumes "InitializeDirectInput w after_CoInitialize = (ok, g2)"
  shows "g_pEffect g2 = None \<and> extends setup_event after_CoInitialize g2
    \<and> live_devices (trace g2) = held (g_pJoystick g2) \<and> live_contexts (trace g2) = held (g_pDI g2)
    \<and> ok = init_succeeds w \<and> (ok \<longrightarrow> g_pJoystick g2 \<noteq> None \<and> g_pDI g2 \<noteq> None)"
  using InitializeDirectInput_facts [OF _ _ _ _ assms] by (simp add: live_devices_def live_contexts_def)


subsection \<open>Cleanup on every exit path, and the exit code\<close>

lemma CleanupAll_live:
  assumes "consistent g"
  shows "live_effects (trace (CleanupAll g)) = [] \<and> live_devices (trace (CleanupAll g)) = []
    \<and> live_contexts (trace (CleanupAll g)) = []
    \<and> cleanup_runs (trace (CleanupAll g)) = cleanup_runs (trace g) + 1"
  using assms by (simp add: consistent_def CleanupAll_trace held_def split: option.splits)

lemma extends_setup:
  assumes "extends setup_event g g'"
  shows "live_effects (trace g') = live_effects (trace g)" "cleanup_runs (trace g') = cleanup_runs (trace g)"
  using assms by (auto simp: extends_def setup_live_effects setup_cleanup_runs)

lemma extends_oscillation:
  assumes "extends oscillation_event g g'"
  shows "live_devices (trace g') = live_devices (trace g)" "live_contexts (trace g') = live_contexts (trace g)"
    "cleanup_runs (trace g') = cleanup_runs (trace g)"
  using assms by (auto simp: extends_def oscillation_live_devices oscillation_live_contexts oscillation_cleanup_runs)

lemma live_Cons [simp]:
  "live_effects (e # tr) = foldl effects_step (effects_step [] e) tr"
  "live_devices (e # tr) = foldl devices_step (devices_step [] e) tr"
  "live_contexts (e # tr) = foldl contexts_step (contexts_step [] e) tr"
  by (simp_all add: live_effects_def live_devices_def live_contexts_def)

lemma after_CoInitialize_measures [simp]:
  "live_effects (trace after_CoInitialize) = []" "cleanup_runs (trace after_CoInitialize) = 0"
  by (simp_all add: live_effects_def)

lemma InitializeDirectInput_consistent:
  assumes "InitializeDirectInput w after_CoInitialize = (ok, g2)"
  shows "consistent g2 \<and> cleanup_runs (trace g2) = 0 \<and> g_pEffect g2 = None"
proof -
  note i = InitializeDirectInput_start [OF assms]
  from i have "extends setup_event after_CoInitialize g2" by simp
  from extends_setup [OF this] i show ?thesis
    by (simp add: consistent_def held_def)
qed

lemma main_before_cleanup:
  assumes "main w arg = Some (ec, g)" and "w_CoInitialize w"
  obtains gc where "g = emit CoUninitialize (CleanupAll gc)" "consistent gc" "cleanup_runs (trace gc) = 0"
  using assms(1)
proof (cases rule: main_cases)
  case com_failed
  with assms(2) show ?thesis by simp
next
  case (init_failed g2)
  note i = InitializeDirectInput_consistent [OF init_failed(2)]
  show ?thesis
    by (rule that [OF init_failed(4)]) (simp_all add: i)
next
  case (no_feedback g2)
  let ?gc = "emit (Printf ''No feedback requested'') g2"
  from InitializeDirectInput_consistent [OF no_feedback(2)]
  have c: "consistent ?gc" "cleanup_runs (trace ?gc) = 0"
    by (simp_all add: consistent_def)
  show ?thesis
    by (rule that [OF no_feedback(5) c])
next
  case (oscillated g2 g3)
  from InitializeDirectInput_consistent [OF oscillated(2)]
  have i: "live_effects (trace g2) = held (g_pEffect g2)" "live_devices (trace g2) = held (g_pJoystick g2)"
    "live_contexts (trace g2) = held (g_pDI g2)" "cleanup_runs (trace g2) = 0"
    unfolding consistent_def by blast+
  from ApplyGentleOscillation_frame [OF oscillated(4)]
  have f: "g_pDI g3 = g_pDI g2" "g_pJoystick g3 = g_pJoystick g2" "extends oscillation_event g2 g3"
    by blast+
  note x = extends_oscillation [OF f(3)]
  have "live_effects (trace g3) = held (g_pEffect g3)"
    by (rule ApplyGentleOscillation_owned [OF oscillated(4) i(1)])
  moreover have "live_devices (trace g3) = held (g_pJoystick g3)"
    unfolding x(1) i(2) f(2) ..
  moreover have "live_contexts (trace g3) = held (g_pDI g3)"
    unfolding x(2) i(3) f(1) ..
  ultimately have c: "consistent g3"
    unfolding consistent_def by blast
  have r: "cleanup_runs (trace g3) = 0"
    unfolding x(3) i(4) ..
  show ?thesis
    by (rule that [OF oscillated(6) c r])
qed

text \<open>
  Claim C1, as amended. On every path on which \<open>main\<close> returns after a successful
  \<open>CoInitialize\<close> (initialisation failure at any step, no feedback requested, the
  loop run to its end, a failed effect creation in the loop), \<open>CleanupAll\<close> runs exactly
  once, as the last thing before \<open>CoUninitialize\<close> and the return; and on every path
  on which \<open>main\<close> returns, the three global pointers are null and no effect, device
  or context created during the run is left unreleased. When \<open>CoInitialize\<close> itself
  fails, \<open>main\<close> returns without running \<open>CleanupAll\<close>; nothing has been created
  then.
\<close>

theorem cleanup_on_exit:
  assumes "main w arg = Some (ec, g)"
  shows "cleanup_runs (trace g) = (if w_CoInitialize w then 1 else 0)
    \<and> g_pEffect g = None \<and> g_pJoystick g = None \<and> g_pDI g = None
    \<and> live_effects (trace g) = [] \<and> live_devices (trace g) = [] \<and> live_contexts (trace g) = []
    \<and> (w_CoInitialize w \<longrightarrow> (\<exists>tr. trace g = tr @ [Printf ''Cleanup complete'', CoUninitialize]))"
proof (cases "w_CoInitialize w")
  case False
  with assms have "g = emit (Printf ''Failed to initialize COM. Error: 0x%lx'')
             (emit (CoInitialize False) (emit (Printf ''Minimal Force Feedback - Type: %d'') startup))"
    by (cases rule: main_cases) simp_all
  with False show ?thesis
    by (simp add: startup_def live_effects_def live_devices_def live_contexts_def)
next
  case True
  from assms True obtain gc where gc: "g = emit CoUninitialize (CleanupAll gc)" "consistent gc"
      "cleanup_runs (trace gc) = 0"
    by (rule main_before_cleanup)
  have "\<exists>tr. trace g = tr @ [Printf ''Cleanup complete'', CoUninitialize]"
    unfolding gc(1) by (simp add: CleanupAll_trace)
  with True gc CleanupAll_live [OF gc(2)] show ?thesis
    by (simp add: CleanupAll_pointers)
qed

theorem cleanup_on_exit_witness:
  "main world_ok (Some 1) \<noteq> None
   \<and> map_option (cleanup_runs \<circ> trace \<circ> snd) (main world_ok (Some 1)) = Some 1
   \<and> map_option (live_effects \<circ> trace \<circ> snd) (main world_ok (Some 1)) = Some []"
proof -
  have n: "main world_ok (Some 1) \<noteq> None"
    by code_simp
  then obtain ec g where m: "main world_ok (Some 1) = Some (ec, g)"
    by auto
  from cleanup_on_exit [OF m] m show ?thesis
    by (simp add: world_ok_def)
qed

text \<open>
  Claim C1 as stated fails on the first exit path: when \<open>CoInitialize\<close> fails,
  \<open>main\<close> returns 1 and \<open>CleanupAll\<close> has not run.
\<close>

theorem cleanup_skipped_when_CoInitialize_fails:
  "map_option fst (main world_com_fails (Some 1)) = Some 1
   \<and> map_option (cleanup_runs \<circ> trace \<circ> snd) (main world_com_fails (Some 1)) = Some 0"
  by code_simp

text \<open>
  Claim C2, as amended. Whenever \<open>main\<close> returns, the exit code is 1 if
  \<open>CoInitialize\<close> fails or any step of \<open>InitializeDirectInput\<close> fails (creating
  the context, finding and binding a device, setting the cooperative level, setting the
  data format, acquiring the device), and 0 otherwise: in particular on the path without
  feedback and whatever happens to effects in the loop.
\<close>

theorem exit_code:
  assumes "main w arg = Some (ec, g)"
  shows "ec = (if w_CoInitialize w \<and> init_succeeds w then 0 else 1)"
  using assms
proof (cases rule: main_cases)
  case com_failed
  then show ?thesis by simp
next
  case (init_failed g2)
  with InitializeDirectInput_start [OF init_failed(2)] show ?thesis by simp
next
  case (no_feedback g2)
  with InitializeDirectInput_start [OF no_feedback(2)] show ?thesis by simp
next
  case (oscillated g2 g3)
  with InitializeDirectInput_start [OF oscillated(2)] show ?thesis by simp
qed

theorem exit_code_witness:
  "main world_ok (Some 2) \<noteq> None \<and> map_option fst (main world_ok (Some 2)) = Some 0"
proof -
  have n: "main world_ok (Some 2) \<noteq> None"
    by code_simp
  then obtain ec g where m: "main world_ok (Some 2) = Some (ec, g)"
    by auto
  have "w_CoInitialize world_ok" "init_succeeds world_ok"
    by (auto simp: world_ok_def init_succeeds_def)
  with exit_code [OF m] have "ec = 0"
    by simp
  with m show ?thesis
    by simp
qed

text \<open>
  Claim C2 as stated fails: with COM and the context initialised and a device found and
  bound, a failing \<open>Acquire\<close> still gives exit code 1.
\<close>

theorem exit_code_1_on_acquire_failure:
  "w_CoInitialize world_acquire_fails \<and> w_DirectInput8Create world_acquire_fails = Some 1
   \<and> w_EnumDevices world_acquire_fails \<and> Some 2 \<in> set (w_devices world_acquire_fails)
   \<and> map_option fst (main world_acquire_fails (Some 1)) = Some 1"
  by code_simp


subsection \<open>One effect at a time\<close>

lemma one_at_a_time_append:
  "one_at_a_time live (xs @ ys) = (one_at_a_time live xs \<and> one_at_a_time (foldl effects_step live xs) ys)"
  by (induction xs arbitrary: live) auto

lemma one_at_a_time_trace [simp]:
  "one_at_a_time [] (tr @ evs) = (one_at_a_time [] tr \<and> one_at_a_time (live_effects tr) evs)"
  by (simp add: one_at_a_time_append live_effects_def)

lemma one_at_a_time_length:
  "one_at_a_time live xs \<Longrightarrow> length live \<le> 1 \<Longrightarrow> length (foldl effects_step live xs) \<le> 1"
  by (induction xs arbitrary: live) auto

lemma one_at_a_time_setup:
  "list_all setup_event evs \<Longrightarrow> length live \<le> 1 \<Longrightarrow> one_at_a_time live evs"
proof (induction evs)
  case Nil
  then show ?case by simp
next
  case (Cons e evs)
  then have "effects_step live e = live" "\<not> creates_effect e"
    by (cases e; simp)+
  with Cons show ?case by simp
qed

lemma effects_step_release:
  "effects_step [e] x = [] \<Longrightarrow> x = IDirectInputEffect_Release e"
proof (cases x)
  case (IDirectInputDevice8_CreateEffect j eff r)
  assume "effects_step [e] x = []"
  with IDirectInputDevice8_CreateEffect show ?thesis by (cases r) simp_all
next
  case (IDirectInputEffect_Release h)
  assume "effects_step [e] x = []"
  with IDirectInputEffect_Release show ?thesis by (simp split: if_splits)
qed simp_all

lemma one_at_a_time_prefix:
  assumes "one_at_a_time [] tr" and "prefix p tr"
  shows "length (live_effects p) \<le> 1
    \<and> (\<forall>q j eff r. p = q @ [IDirectInputDevice8_CreateEffect j eff r] \<longrightarrow> live_effects q = []
          \<and> (\<forall>q' x e. q = q' @ [x] \<and> live_effects q' = [e] \<longrightarrow> x = IDirectInputEffect_Release e))"
proof -
  from assms(2) obtain s where "tr = p @ s" by (auto simp: prefix_def)
  with assms(1) have p: "one_at_a_time [] p" by simp
  then have "length (live_effects p) \<le> 1"
    unfolding live_effects_def by (rule one_at_a_time_length) simp
  moreover have "live_effects q = [] \<and> (\<forall>q' x e. q = q' @ [x] \<and> live_effects q' = [e] \<longrightarrow> x = IDirectInputEffect_Release e)"
    if "p = q @ [IDirectInputDevice8_CreateEffect j eff r]" for q j eff r
  proof -
    from p that have e: "live_effects q = []" by simp
    then have "x = IDirectInputEffect_Release e" if "q = q' @ [x]" "live_effects q' = [e]" for q' x e
      using that by (simp add: effects_step_release)
    with e show ?thesis by blast
  qed
  ultimately show ?thesis by blast
qed

lemma oscillation_pass_one_at_a_time:
  assumes "oscillation_pass E si sm p d l g = Again d' l' g' \<or> oscillation_pass E si sm p d l g = Leave how g'"
    and "live_effects (trace g) = held (g_pEffect g)" and "one_at_a_time [] (trace g)"
  shows "one_at_a_time [] (trace g')"
  using assms
  by (auto simp: oscillation_pass_def Let_def held_def split: if_splits option.splits)

lemma oscillation_loop_one_at_a_time:
  assumes "oscillation_loop E si sm ps d l g = Some (how, g')"
    and "live_effects (trace g) = held (g_pEffect g)" and "one_at_a_time [] (trace g)"
  shows "one_at_a_time [] (trace g')"
proof -
  have "live_effects (trace g') = held (g_pEffect g') \<and> one_at_a_time [] (trace g')"
  proof (rule oscillation_loop_rule [OF assms(1),
        where I = "\<lambda>d l g1. live_effects (trace g1) = held (g_pEffect g1) \<and> one_at_a_time [] (trace g1)"])
    show "live_effects (trace g) = held (g_pEffect g) \<and> one_at_a_time [] (trace g)"
      using assms(2,3) by simp
  next
    fix p d l g1 d' l' g2
    assume i: "live_effects (trace g1) = held (g_pEffect g1) \<and> one_at_a_time [] (trace g1)"
      and s: "oscillation_pass E si sm p d l g1 = Again d' l' g2"
    from i oscillation_pass_owned [OF disjI1 [OF s]] oscillation_pass_one_at_a_time [OF disjI1 [OF s]]
    show "live_effects (trace g2) = held (g_pEffect g2) \<and> one_at_a_time [] (trace g2)"
      by simp
  next
    fix p d l g1 how g2
    assume i: "live_effects (trace g1) = held (g_pEffect g1) \<and> one_at_a_time [] (trace g1)"
      and s: "oscillation_pass E si sm p d l g1 = Leave how g2"
    from i oscillation_pass_owned [OF disjI2 [OF s]] oscillation_pass_one_at_a_time [OF disjI2 [OF s]]
    show "live_effects (trace g2) = held (g_pEffect g2) \<and> one_at_a_time [] (trace g2)"
      by simp
  qed
  then show ?thesis by simp
qed


lemma ApplyGentleOscillation_cases:
  assumes "ApplyGentleOscillation w ft g = Some g'"
  obtains si sm line how g3 where "configure_pattern ft = (si, sm, line)"
    "oscillation_loop (w_startTime w + OSCILLATION_DURATION) si sm (w_polls w) 1 (w_startTime w)
       (emit (Printf line) (emit (GetTickCount (w_startTime w)) g)) = Some (how, g3)"
    "g' = (case how of Returned \<Rightarrow> g3 | LoopDone \<Rightarrow> stop_effect g3)"
proof -
  obtain si sm line where c: "configure_pattern ft = (si, sm, line)"
    by (cases "configure_pattern ft") auto
  with assms obtain how g3 where
    "oscillation_loop (w_startTime w + OSCILLATION_DURATION) si sm (w_polls w) 1 (w_startTime w)
       (emit (Printf line) (emit (GetTickCount (w_startTime w)) g)) = Some (how, g3)"
    "g' = (case how of Returned \<Rightarrow> g3 | LoopDone \<Rightarrow> stop_effect g3)"
    by (auto simp: ApplyGentleOscillation_def Let_def split: option.splits loop_exit.splits)
  with c that show ?thesis by blast
qed

lemma stop_effect_facts [simp]:
  "g_pEffect (stop_effect g) = g_pEffect g"
  "trace (stop_effect g) = trace g @ (case g_pEffect g of None \<Rightarrow> [] | Some e \<Rightarrow> [IDirectInputEffect_Stop e])"
  by (simp_all add: stop_effect_def split: option.splits)

lemma ApplyGentleOscillation_one_at_a_time:
  assumes "ApplyGentleOscillation w ft g = Some g'"
    and "live_effects (trace g) = held (g_pEffect g)" and "one_at_a_time [] (trace g)"
  shows "one_at_a_time [] (trace g')"
  using assms(1)
proof (cases rule: ApplyGentleOscillation_cases)
  case (1 si sm line how g3)
  let ?g2 = "emit (Printf line) (emit (GetTickCount (w_startTime w)) g)"
  have a: "live_effects (trace ?g2) = held (g_pEffect ?g2)" "one_at_a_time [] (trace ?g2)"
    using assms(2,3) by (simp_all add: held_def split: option.splits)
  note b = oscillation_loop_one_at_a_time [OF 1(2) a] oscillation_loop_owned [OF 1(2) a(1)]
  show ?thesis
    unfolding 1(3) using b by (cases how) (simp_all add: held_def split: option.splits)
qed

lemma CleanupAll_one_at_a_time:
  assumes "live_effects (trace g) = held (g_pEffect g)" and "one_at_a_time [] (trace g)"
  shows "one_at_a_time [] (trace (emit CoUninitialize (CleanupAll g)))"
  using assms by (simp add: CleanupAll_trace held_def split: option.splits)

lemma InitializeDirectInput_one_at_a_time:
  assumes "InitializeDirectInput w after_CoInitialize = (ok, g2)"
  shows "one_at_a_time [] (trace g2)"
proof -
  from InitializeDirectInput_start [OF assms]
  obtain evs where "trace g2 = trace after_CoInitialize @ evs" "list_all setup_event evs"
    by (auto simp: extends_def)
  then show ?thesis
    by (simp add: one_at_a_time_setup)
qed

lemma main_one_at_a_time:
  assumes "main w arg = Some (ec, g)"
  shows "one_at_a_time [] (trace g)"
  using assms
proof (cases rule: main_cases)
  case com_failed
  then show ?thesis by (simp add: startup_def)
next
  case (init_failed g2)
  from InitializeDirectInput_consistent [OF init_failed(2)]
  have "live_effects (trace g2) = held (g_pEffect g2)" by (simp add: consistent_def)
  then show ?thesis
    unfolding init_failed(4)
    by (rule CleanupAll_one_at_a_time) (rule InitializeDirectInput_one_at_a_time [OF init_failed(2)])
next
  case (no_feedback g2)
  let ?gc = "emit (Printf ''No feedback requested'') g2"
  from InitializeDirectInput_consistent [OF no_feedback(2)] InitializeDirectInput_one_at_a_time [OF no_feedback(2)]
  have "live_effects (trace ?gc) = held (g_pEffect ?gc)" "one_at_a_time [] (trace ?gc)"
    by (simp_all add: consistent_def held_def)
  then show ?thesis
    unfolding no_feedback(5) by (rule CleanupAll_one_at_a_time)
next
  case (oscillated g2 g3)
  from InitializeDirectInput_consistent [OF oscillated(2)]
  have o: "live_effects (trace g2) = held (g_pEffect g2)" by (simp add: consistent_def)
  note i = InitializeDirectInput_one_at_a_time [OF oscillated(2)]
  show ?thesis
    unfolding oscillated(6)
    by (rule CleanupAll_one_at_a_time
          [OF ApplyGentleOscillation_owned [OF oscillated(4) o]
              ApplyGentleOscillation_one_at_a_time [OF oscillated(4) o i]])
qed

text \<open>
  Claim C3. At every moment of a run of the program (every prefix of its trace), so at
  every moment of the oscillation loop, at most one effect instance is alive. Each call of
  \<open>CreateEffect\<close> is made when none is alive; and if one was alive one event before
  the call, that event is the \<open>Release\<close> of this instance.
\<close>

theorem one_live_effect:
  assumes "main w arg = Some (ec, g)" and "prefix p (trace g)"
  shows "length (live_effects p) \<le> 1
    \<and> (\<forall>q j eff r. p = q @ [IDirectInputDevice8_CreateEffect j eff r] \<longrightarrow> live_effects q = []
          \<and> (\<forall>q' x e. q = q' @ [x] \<and> live_effects q' = [e] \<longrightarrow> x = IDirectInputEffect_Release e))"
  by (rule one_at_a_time_prefix [OF main_one_at_a_time [OF assms(1)] assms(2)])

lemma run_ok_trace:
  "main world_ok (Some 1) = Some (0, \<lparr>g_pDI = None, g_pJoystick = None, g_pEffect = None, trace = run_ok\<rparr>)"
  by code_simp

theorem one_live_effect_witness:
  "take 26 run_ok = take 24 run_ok
       @ [IDirectInputEffect_Release 5, IDirectInputDevice8_CreateEffect 2 (constant_force 1 25 1) (Some 6)]
   \<and> live_effects (take 24 run_ok) = [5]
   \<and> live_effects (take 25 run_ok) = []
   \<and> length (live_effects (take 26 run_ok)) \<le> 1"
proof -
  have a: "take 26 run_ok = take 24 run_ok
       @ [IDirectInputEffect_Release 5, IDirectInputDevice8_CreateEffect 2 (constant_force 1 25 1) (Some 6)]"
    by code_simp
  have b: "live_effects (take 24 run_ok) = [5]"
    by code_simp
  have c: "take 25 run_ok = take 24 run_ok @ [IDirectInputEffect_Release 5]"
    by code_simp
  have "prefix (take 26 run_ok) (trace \<lparr>g_pDI = None, g_pJoystick = None, g_pEffect = None, trace = run_ok\<rparr>)"
    by (simp add: take_is_prefix)
  from one_live_effect [OF run_ok_trace this] a b c show ?thesis
    by simp
qed


subsection \<open>What the loop can do\<close>

lemma oscillation_pass_events:
  assumes "oscillation_pass E si sm p d l g = Again d' l' g' \<or> oscillation_pass E si sm p d l g = Leave how g'"
    and "d = 1 \<or> d = - 1"
  shows "extends (pass_event si sm) g g'"
  using assms
  by (auto simp: oscillation_pass_def Let_def extends_def split: if_splits option.splits)

lemma oscillation_pass_direction:
  assumes "oscillation_pass E si sm p d l g = Again d' l' g'" and "d = 1 \<or> d = - 1"
  shows "d' = 1 \<or> d' = - 1"
  using assms
  by (auto simp: oscillation_pass_def Let_def split: if_splits option.splits)

lemma oscillation_loop_events:
  assumes "oscillation_loop E si sm ps d l g = Some (how, g')" and "d = 1 \<or> d = - 1"
  shows "extends (pass_event si sm) g g'"
proof (rule oscillation_loop_rule [OF assms(1),
        where I = "\<lambda>d l g1. (d = 1 \<or> d = - 1) \<and> extends (pass_event si sm) g g1"])
  show "(d = 1 \<or> d = - 1) \<and> extends (pass_event si sm) g g"
    using assms(2) by simp
next
  fix p d l g1 d' l' g2
  assume i: "(d = 1 \<or> d = - 1) \<and> extends (pass_event si sm) g g1"
    and s: "oscillation_pass E si sm p d l g1 = Again d' l' g2"
  from i have d: "d = 1 \<or> d = - 1" and e: "extends (pass_event si sm) g g1" by blast+
  show "(d' = 1 \<or> d' = - 1) \<and> extends (pass_event si sm) g g2"
    using oscillation_pass_direction [OF s d]
      extends_trans [OF e oscillation_pass_events [OF disjI1 [OF s] d]] by blast
next
  fix p d l g1 how g2
  assume i: "(d = 1 \<or> d = - 1) \<and> extends (pass_event si sm) g g1"
    and s: "oscillation_pass E si sm p d l g1 = Leave how g2"
  from i have d: "d = 1 \<or> d = - 1" and e: "extends (pass_event si sm) g g1" by blast+
  show "extends (pass_event si sm) g g2"
    by (rule extends_trans [OF e oscillation_pass_events [OF disjI2 [OF s] d]])
qed

lemma oscillation_pass_quiet:
  assumes "oscillation_pass E si sm p d l g = Again d' l' g'"
  shows "extends quiet g g'"
  using assms
  by (auto simp: oscillation_pass_def Let_def extends_def split: if_splits option.splits)

lemma oscillation_pass_ended:
  assumes "oscillation_pass E si sm p d l g = Leave how g'"
  shows "ended g how g'"
  using assms
  by (auto simp: oscillation_pass_def Let_def extends_def ended_def split: if_splits option.splits)

lemma ended_trans:
  assumes "extends quiet g g1" and "ended g1 how g2"
  shows "ended g how g2"
proof (cases how)
  case LoopDone
  with assms show ?thesis by (auto simp: ended_def intro: extends_trans)
next
  case Returned
  from assms(1) obtain evs0 where a: "trace g1 = trace g @ evs0" "list_all quiet evs0"
    by (auto simp: extends_def)
  from assms(2) Returned obtain evs j eff where b: "list_all quiet evs" "g_pJoystick g2 = Some j"
    "trace g2 = trace g1 @ evs @ [IDirectInputDevice8_CreateEffect j eff None,
                                  Printf ''Failed to create oscillation effect. Error: 0x%lx'']"
    and n: "g_pEffect g2 = None"
    by (auto simp: ended_def)
  from a b have "list_all quiet (evs0 @ evs) \<and> g_pJoystick g2 = Some j
    \<and> trace g2 = trace g @ (evs0 @ evs) @ [IDirectInputDevice8_CreateEffect j eff None,
                                  Printf ''Failed to create oscillation effect. Error: 0x%lx'']"
    by simp
  then have "\<exists>evs j eff. list_all quiet evs \<and> g_pJoystick g2 = Some j
    \<and> trace g2 = trace g @ evs @ [IDirectInputDevice8_CreateEffect j eff None,
                                  Printf ''Failed to create oscillation effect. Error: 0x%lx'']"
    by blast
  with n Returned show ?thesis by (simp add: ended_def)
qed

lemma oscillation_loop_ended:
  assumes "oscillation_loop E si sm ps d l g = Some (how, g')"
  shows "ended g how g'"
proof (rule oscillation_loop_rule [OF assms, where I = "\<lambda>d l g1. extends quiet g g1"])
  show "extends quiet g g" by simp
next
  fix p d l g1 d' l' g2
  assume "extends quiet g g1" and "oscillation_pass E si sm p d l g1 = Again d' l' g2"
  then show "extends quiet g g2"
    using oscillation_pass_quiet extends_trans by blast
next
  fix p d l g1 how g2
  assume "extends quiet g g1" and "oscillation_pass E si sm p d l g1 = Leave how g2"
  then show "ended g how g2"
    using oscillation_pass_ended ended_trans by blast
qed


subsection \<open>The effects submitted\<close>

lemma extends_mono:
  assumes "extends P g g'" and "\<And>e. P e \<Longrightarrow> Q e"
  shows "extends Q g g'"
  using assms by (auto simp: extends_def list_all_iff)

lemma extends_list_all:
  assumes "extends P g g'" and "list_all P (trace g)"
  shows "list_all P (trace g')"
  using assms by (auto simp: extends_def)

lemma pass_event_submits: "pass_event si sm e \<Longrightarrow> submits si sm e"
  by (cases e) simp_all

lemma setup_event_submits: "setup_event e \<Longrightarrow> submits si sm e"
  by (cases e) simp_all

lemma setup_event_quiet: "setup_event e \<Longrightarrow> quiet e"
  by (cases e) simp_all

lemma quiet_not_failed: "quiet e \<Longrightarrow> \<not> failed_creation e"
  by (cases e rule: failed_creation.cases) simp_all

lemma main_paths [consumes 1, case_names com_failed init_failed no_feedback completed aborted]:
  assumes "main w arg = Some (ec, g)"
  obtains
    "\<not> w_CoInitialize w" "ec = 1"
      "g = emit (Printf ''Failed to initialize COM. Error: 0x%lx'')
             (emit (CoInitialize False) (emit (Printf ''Minimal Force Feedback - Type: %d'') startup))"
  | g2 where "w_CoInitialize w" "InitializeDirectInput w after_CoInitialize = (False, g2)" "ec = 1"
      "g = emit CoUninitialize (CleanupAll g2)"
  | g2 where "w_CoInitialize w" "InitializeDirectInput w after_CoInitialize = (True, g2)"
      "parse_feedbackType arg = FEEDBACK_NONE" "ec = 0"
      "g = emit CoUninitialize (CleanupAll (emit (Printf ''No feedback requested'') g2))"
  | g2 si sm line g3 where "w_CoInitialize w" "InitializeDirectInput w after_CoInitialize = (True, g2)"
      "parse_feedbackType arg \<noteq> FEEDBACK_NONE"
      "configure_pattern (parse_feedbackType arg) = (si, sm, line)"
      "oscillation_loop (w_startTime w + OSCILLATION_DURATION) si sm (w_polls w) 1 (w_startTime w)
         (emit (Printf line) (emit (GetTickCount (w_startTime w)) g2)) = Some (LoopDone, g3)"
      "ec = 0" "g = emit CoUninitialize (CleanupAll (stop_effect g3))"
  | g2 si sm line g3 where "w_CoInitialize w" "InitializeDirectInput w after_CoInitialize = (True, g2)"
      "parse_feedbackType arg \<noteq> FEEDBACK_NONE"
      "configure_pattern (parse_feedbackType arg) = (si, sm, line)"
      "oscillation_loop (w_startTime w + OSCILLATION_DURATION) si sm (w_polls w) 1 (w_startTime w)
         (emit (Printf line) (emit (GetTickCount (w_startTime w)) g2)) = Some (Returned, g3)"
      "ec = 0" "g = emit CoUninitialize (CleanupAll g3)"
  using assms
proof (cases rule: main_cases)
  case com_failed
  then show ?thesis by (rule that(1))
next
  case (init_failed g2)
  then show ?thesis by (rule that(2))
next
  case (no_feedback g2)
  then show ?thesis by (rule that(3))
next
  case (oscillated g2 g')
  from oscillated(4) show ?thesis
  proof (cases rule: ApplyGentleOscillation_cases)
    case (1 si sm line how g3)
    show ?thesis
    proof (cases how)
      case LoopDone
      show ?thesis
        by (rule that(4) [OF oscillated(1,2,3) 1(1) 1(2) [unfolded LoopDone] oscillated(5)])
           (simp add: oscillated(6) 1(3) LoopDone)
    next
      case Returned
      show ?thesis
        by (rule that(5) [OF oscillated(1,2,3) 1(1) 1(2) [unfolded Returned] oscillated(5)])
           (simp add: oscillated(6) 1(3) Returned)
    qed
  qed
qed


lemma InitializeDirectInput_submits:
  assumes "InitializeDirectInput w after_CoInitialize = (ok, g2)"
  shows "list_all (submits si sm) (trace g2)"
proof -
  from InitializeDirectInput_start [OF assms]
  have "extends (submits si sm) after_CoInitialize g2"
    using extends_mono setup_event_submits by blast
  then show ?thesis
    by (rule extends_list_all) simp
qed

lemma InitializeDirectInput_quiet:
  assumes "InitializeDirectInput w after_CoInitialize = (ok, g2)"
  shows "list_all quiet (trace g2)"
proof -
  from InitializeDirectInput_start [OF assms]
  have "extends quiet after_CoInitialize g2"
    using extends_mono setup_event_quiet by blast
  then show ?thesis
    by (rule extends_list_all) simp
qed

lemma CleanupAll_submits:
  "list_all (submits si sm) (trace g) \<Longrightarrow> list_all (submits si sm) (trace (emit CoUninitialize (CleanupAll g)))"
  by (simp add: CleanupAll_trace split: option.splits)

lemma CleanupAll_unfailed:
  "list_all (\<lambda>e. \<not> failed_creation e) (trace g) \<Longrightarrow>
   list_all (\<lambda>e. \<not> failed_creation e) (trace (emit CoUninitialize (CleanupAll g)))"
  by (simp add: CleanupAll_trace split: option.splits)

lemma oscillation_loop_submits:
  assumes "oscillation_loop E si sm ps 1 l g = Some (how, g')" and "list_all (submits si sm) (trace g)"
  shows "list_all (submits si sm) (trace g')"
proof -
  have "extends (pass_event si sm) g g'"
    by (rule oscillation_loop_events [OF assms(1)]) simp
  then have "extends (submits si sm) g g'"
    using pass_event_submits by (rule extends_mono)
  then show ?thesis
    using assms(2) by (rule extends_list_all)
qed

lemma main_submits:
  assumes "main w arg = Some (ec, g)" and "configure_pattern (parse_feedbackType arg) = (si, sm, line)"
  shows "list_all (submits si sm) (trace g)"
  using assms(1)
proof (cases rule: main_paths)
  case com_failed
  then show ?thesis by (simp add: startup_def)
next
  case (init_failed g2)
  show ?thesis
    unfolding init_failed(4)
    by (rule CleanupAll_submits) (rule InitializeDirectInput_submits [OF init_failed(2)])
next
  case (no_feedback g2)
  show ?thesis
    unfolding no_feedback(5)
    by (rule CleanupAll_submits) (simp add: InitializeDirectInput_submits [OF no_feedback(2)])
next
  case (completed g2 si' sm' line' g3)
  with assms(2) have e: "si' = si" "sm' = sm" by simp_all
  have "list_all (submits si sm) (trace g3)"
    by (rule oscillation_loop_submits [OF completed(5) [unfolded e]])
       (simp add: InitializeDirectInput_submits [OF completed(2)])
  then show ?thesis
    unfolding completed(7)
    by (intro CleanupAll_submits) (simp split: option.splits)
next
  case (aborted g2 si' sm' line' g3)
  with assms(2) have e: "si' = si" "sm' = sm" by simp_all
  have "list_all (submits si sm) (trace g3)"
    by (rule oscillation_loop_submits [OF aborted(5) [unfolded e]])
       (simp add: InitializeDirectInput_submits [OF aborted(2)])
  then show ?thesis
    unfolding aborted(7) by (rule CleanupAll_submits)
qed

lemma constant_force_duration:
  assumes "si = 0 \<or> si = 25"
  shows "uint (dwDuration (constant_force d si sm)) = si * 1000"
  using assms by (auto simp: constant_force_def)

lemma configure_pattern_interval:
  "fst (configure_pattern ft) = 0 \<or> fst (configure_pattern ft) = 25"
  by (simp add: configure_pattern_def)

text \<open>
  Claim C6. The parameters are a fixed function of the category: obstacle gives interval 25
  and multiplier 1, movement gives interval 25 and multiplier 1, every other value gives
  interval 0 and multiplier 0. In every run of the program, the duration field of every
  effect handed to \<open>CreateEffect\<close> is the switch interval of the run's category
  times 1000.
\<close>

theorem pattern_and_duration:
  "configure_pattern FEEDBACK_OBSTACLE = (25, 1, ''obstacle feedback pattern...'')
   \<and> configure_pattern FEEDBACK_MOVEMENT = (25, 1, ''Applying fast movement feedback pattern...'')
   \<and> (ft \<noteq> FEEDBACK_OBSTACLE \<and> ft \<noteq> FEEDBACK_MOVEMENT \<longrightarrow>
         configure_pattern ft = (0, 0, ''Applying default feedback pattern...''))
   \<and> (main w arg = Some (ec, g) \<and> IDirectInputDevice8_CreateEffect j eff r \<in> set (trace g) \<longrightarrow>
         uint (dwDuration eff) = fst (configure_pattern (parse_feedbackType arg)) * 1000)"
proof -
  have "uint (dwDuration eff) = fst (configure_pattern (parse_feedbackType arg)) * 1000"
    if m: "main w arg = Some (ec, g)" and c: "IDirectInputDevice8_CreateEffect j eff r \<in> set (trace g)"
  proof -
    obtain si sm line where p: "configure_pattern (parse_feedbackType arg) = (si, sm, line)"
      by (cases "configure_pattern (parse_feedbackType arg)") auto
    from main_submits [OF m p] c have "submits si sm (IDirectInputDevice8_CreateEffect j eff r)"
      by (auto simp: list_all_iff)
    then have "eff = constant_force 1 si sm \<or> eff = constant_force (- 1) si sm"
      by simp
    moreover from configure_pattern_interval [of "parse_feedbackType arg"] p have "si = 0 \<or> si = 25"
      by simp
    ultimately show ?thesis
      using p constant_force_duration by auto
  qed
  then show ?thesis
    by (simp add: configure_pattern_def FEEDBACK_OBSTACLE_def FEEDBACK_MOVEMENT_def)
qed

theorem pattern_and_duration_witness:
  "IDirectInputDevice8_CreateEffect 2 (constant_force 1 25 1) (Some 6) \<in> set run_ok
   \<and> uint (dwDuration (constant_force 1 25 1)) = 25 * 1000"
proof -
  have a: "IDirectInputDevice8_CreateEffect 2 (constant_force 1 25 1) (Some 6) \<in> set run_ok"
    by code_simp
  have "fst (configure_pattern (parse_feedbackType (Some 1))) = 25"
    by (simp add: configure_pattern_def parse_feedbackType_def FEEDBACK_NONE_def FEEDBACK_MOVEMENT_def
          FEEDBACK_OBSTACLE_def)
  with run_ok_trace a
    pattern_and_duration [where w = world_ok and arg = "Some 1" and ec = 0 and j = 2
      and g = "\<lparr>g_pDI = None, g_pJoystick = None, g_pEffect = None, trace = run_ok\<rparr>"
      and eff = "constant_force 1 25 1" and r = "Some 6"]
  show ?thesis
    by simp
qed


subsection \<open>A failed effect creation\<close>

lemma quiet_unfailed:
  "list_all quiet tr \<Longrightarrow> list_all (\<lambda>e. \<not> failed_creation e) tr"
  by (auto simp: list_all_iff quiet_not_failed)

lemma unfailed_contradiction:
  assumes "list_all (\<lambda>e. \<not> failed_creation e) tr" and "IDirectInputDevice8_CreateEffect j eff None \<in> set tr"
  shows False
  using assms by (auto simp: list_all_iff)

lemma quiet_members:
  assumes "list_all quiet tr"
  shows "(\<forall>j eff. IDirectInputDevice8_CreateEffect j eff None \<notin> set tr) \<and> (\<forall>h. IDirectInputEffect_Stop h \<notin> set tr)"
  using assms by (auto simp: list_all_iff)

lemma main_aborted:
  assumes "main w arg = Some (ec, g)" and "IDirectInputDevice8_CreateEffect j eff None \<in> set (trace g)"
  obtains g3 tr d where "ec = 0" "g = emit CoUninitialize (CleanupAll g3)" "g_pEffect g3 = None"
    "g_pJoystick g3 = Some j" "g_pDI g3 = Some d" "list_all quiet tr"
    "trace g3 = tr @ [IDirectInputDevice8_CreateEffect j eff None,
                      Printf ''Failed to create oscillation effect. Error: 0x%lx'']"
  using assms(1)
proof (cases rule: main_paths)
  case com_failed
  with assms(2) show ?thesis by (simp add: startup_def)
next
  case (init_failed g2)
  have "list_all (\<lambda>e. \<not> failed_creation e) (trace g)"
    unfolding init_failed(4)
    by (rule CleanupAll_unfailed) (rule quiet_unfailed [OF InitializeDirectInput_quiet [OF init_failed(2)]])
  from unfailed_contradiction [OF this assms(2)] show ?thesis ..
next
  case (no_feedback g2)
  have "list_all (\<lambda>e. \<not> failed_creation e) (trace g)"
    unfolding no_feedback(5)
    by (rule CleanupAll_unfailed) (simp add: quiet_unfailed [OF InitializeDirectInput_quiet [OF no_feedback(2)]])
  from unfailed_contradiction [OF this assms(2)] show ?thesis ..
next
  case (completed g2 si sm line g3)
  let ?g = "emit (Printf line) (emit (GetTickCount (w_startTime w)) g2)"
  from oscillation_loop_ended [OF completed(5)] have "extends quiet ?g g3"
    by (simp add: ended_def)
  moreover have "list_all quiet (trace ?g)"
    by (simp add: InitializeDirectInput_quiet [OF completed(2)])
  ultimately have "list_all quiet (trace g3)"
    by (rule extends_list_all)
  then have "list_all (\<lambda>e. \<not> failed_creation e) (trace (stop_effect g3))"
    by (simp add: quiet_unfailed split: option.splits)
  then have "list_all (\<lambda>e. \<not> failed_creation e) (trace g)"
    unfolding completed(7) by (rule CleanupAll_unfailed)
  from unfailed_contradiction [OF this assms(2)] show ?thesis ..
next
  case (aborted g2 si sm line g3)
  let ?g = "emit (Printf line) (emit (GetTickCount (w_startTime w)) g2)"
  have q: "list_all quiet (trace ?g)"
    by (simp add: InitializeDirectInput_quiet [OF aborted(2)])
  from oscillation_loop_ended [OF aborted(5)]
  obtain evs j' eff' where e: "g_pEffect g3 = None" "list_all quiet evs" "g_pJoystick g3 = Some j'"
    "trace g3 = trace ?g @ evs @ [IDirectInputDevice8_CreateEffect j' eff' None,
                                  Printf ''Failed to create oscillation effect. Error: 0x%lx'']"
    by (auto simp: ended_def)
  from InitializeDirectInput_start [OF aborted(2)] obtain d where "g_pDI g2 = Some d"
    by auto
  with oscillation_loop_frame [OF aborted(5)] have d: "g_pDI g3 = Some d"
    by simp
  have t: "trace g3 = (trace ?g @ evs) @ [IDirectInputDevice8_CreateEffect j' eff' None,
                                  Printf ''Failed to create oscillation effect. Error: 0x%lx'']"
    using e(4) by simp
  have qq: "list_all quiet (trace ?g @ evs)"
    using q e(2) by simp
  from quiet_members [OF qq] assms(2) have "j' = j \<and> eff' = eff"
    unfolding aborted(7) by (auto simp: CleanupAll_trace t e(1,3) d)
  with that [OF aborted(6,7) e(1) _ d qq] t e(3) show ?thesis
    by simp
qed

text \<open>
  Claim C5, as amended. When a \<open>CreateEffect\<close> call fails in a run of the program,
  the failure is reported and nothing of the loop follows: no further reading of the tick
  counter, no second attempt, no other call on an effect. The \<open>return\<close> leaves
  \<open>ApplyGentleOscillation\<close> before the block that stops the effect, so the stop is
  skipped: no \<open>Stop\<close> call is made anywhere in the run. The next events are those of
  \<open>CleanupAll\<close>, which still runs and releases the device and the context, then
  \<open>CoUninitialize\<close>; the exit code is 0. The failed call is the only one of the run.
\<close>

theorem failed_creation_aborts:
  assumes "main w arg = Some (ec, g)" and "IDirectInputDevice8_CreateEffect j eff None \<in> set (trace g)"
  shows "ec = 0
    \<and> (\<exists>tr d. trace g = tr @ [IDirectInputDevice8_CreateEffect j eff None,
                              Printf ''Failed to create oscillation effect. Error: 0x%lx'',
                              IDirectInputDevice8_Unacquire j, IDirectInputDevice8_Release j,
                              IDirectInput8_Release d, Printf ''Cleanup complete'', CoUninitialize]
          \<and> (\<forall>j' eff'. IDirectInputDevice8_CreateEffect j' eff' None \<notin> set tr)
          \<and> (\<forall>h. IDirectInputEffect_Stop h \<notin> set tr))"
  using assms
proof (cases rule: main_aborted)
  case (1 g3 tr d)
  have "trace g = tr @ [IDirectInputDevice8_CreateEffect j eff None,
                              Printf ''Failed to create oscillation effect. Error: 0x%lx'',
                              IDirectInputDevice8_Unacquire j, IDirectInputDevice8_Release j,
                              IDirectInput8_Release d, Printf ''Cleanup complete'', CoUninitialize]"
    unfolding 1(2) by (simp add: CleanupAll_trace 1)
  with quiet_members [OF 1(6)] 1(1) show ?thesis
    by blast
qed

lemma run_create_fails_trace:
  "main world_create_fails (Some 2) =
     Some (0, \<lparr>g_pDI = None, g_pJoystick = None, g_pEffect = None, trace = run_create_fails\<rparr>)"
  by code_simp

theorem failed_creation_aborts_witness:
  "IDirectInputDevice8_CreateEffect 2 (constant_force 1 25 1) None \<in> set run_create_fails
   \<and> map_option fst (main world_create_fails (Some 2)) = Some 0
   \<and> (\<exists>tr d. run_create_fails = tr @ [IDirectInputDevice8_CreateEffect 2 (constant_force 1 25 1) None,
                              Printf ''Failed to create oscillation effect. Error: 0x%lx'',
                              IDirectInputDevice8_Unacquire 2, IDirectInputDevice8_Release 2,
                              IDirectInput8_Release d, Printf ''Cleanup complete'', CoUninitialize])"
proof -
  let ?g = "\<lparr>g_pDI = None, g_pJoystick = None, g_pEffect = None, trace = run_create_fails\<rparr>"
  have a: "IDirectInputDevice8_CreateEffect 2 (constant_force 1 25 1) None \<in> set run_create_fails"
    by code_simp
  then have b: "IDirectInputDevice8_CreateEffect 2 (constant_force 1 25 1) None \<in> set (trace ?g)"
    by simp
  from failed_creation_aborts [OF run_create_fails_trace b]
  obtain tr d where "trace ?g = tr @ [IDirectInputDevice8_CreateEffect 2 (constant_force 1 25 1) None,
                              Printf ''Failed to create oscillation effect. Error: 0x%lx'',
                              IDirectInputDevice8_Unacquire 2, IDirectInputDevice8_Release 2,
                              IDirectInput8_Release d, Printf ''Cleanup complete'', CoUninitialize]"
    by blast
  then have "\<exists>tr d. run_create_fails = tr @ [IDirectInputDevice8_CreateEffect 2 (constant_force 1 25 1) None,
                              Printf ''Failed to create oscillation effect. Error: 0x%lx'',
                              IDirectInputDevice8_Unacquire 2, IDirectInputDevice8_Release 2,
                              IDirectInput8_Release d, Printf ''Cleanup complete'', CoUninitialize]"
    by auto
  with a run_create_fails_trace show ?thesis
    by simp
qed

text \<open>
  Claim C5 as stated fails in its clause that the effect stop still executes. In the run of
  \<open>world_create_fails\<close> for the movement category, effect 5 is created and started,
  the next creation fails, and the run returns 0 without a single \<open>Stop\<close> call:
  the started effect is released, never stopped. The stop block does make its call when
  the loop runs to its end, as in the run of \<open>world_ok\<close>, where effect 6 is stopped.
\<close>

theorem stop_skipped_after_failed_creation:
  "map_option fst (main world_create_fails (Some 2)) = Some 0
   \<and> IDirectInputEffect_Start 5 True \<in> set run_create_fails
   \<and> IDirectInputDevice8_CreateEffect 2 (constant_force 1 25 1) None \<in> set run_create_fails
   \<and> stopped run_create_fails = []
   \<and> stopped run_ok = [6]"
  by code_simp


text \<open>
  Claim C10. When \<open>ApplyGentleOscillation\<close> returns after a failed
  \<open>CreateEffect\<close>, the global effect pointer is null: the block that stops the effect
  leaves such a state unchanged, \<open>CleanupAll\<close> makes no \<open>Release\<close> call on an
  effect (its calls are those for the device and the context only), and the function has
  made no \<open>Stop\<close> call at all, so the effect started last is released but never
  stopped. If the effect pointer held the only effect alive when the function was called,
  none is alive when it returns.
\<close>

theorem null_effect_after_failed_creation:
  assumes "ApplyGentleOscillation w ft g = Some g'" and "trace g' = trace g @ evs"
    and "IDirectInputDevice8_CreateEffect j eff None \<in> set evs"
  shows "g_pEffect g' = None \<and> stop_effect g' = g'
    \<and> trace (CleanupAll g') =
         trace g'
         @ (case g_pJoystick g' of None \<Rightarrow> []
            | Some j \<Rightarrow> [IDirectInputDevice8_Unacquire j, IDirectInputDevice8_Release j])
         @ (case g_pDI g' of None \<Rightarrow> [] | Some d \<Rightarrow> [IDirectInput8_Release d])
         @ [Printf ''Cleanup complete'']
    \<and> (\<forall>h. IDirectInputEffect_Stop h \<notin> set evs)
    \<and> (live_effects (trace g) = held (g_pEffect g) \<longrightarrow> live_effects (trace g') = [])"
  using assms(1)
proof (cases rule: ApplyGentleOscillation_cases)
  case (1 si sm line how g3)
  let ?g = "emit (Printf line) (emit (GetTickCount (w_startTime w)) g)"
  note e = oscillation_loop_ended [OF 1(2)]
  show ?thesis
  proof (cases how)
    case LoopDone
    with e obtain evs' where "trace g3 = trace ?g @ evs'" "list_all quiet evs'"
      by (auto simp: ended_def extends_def)
    with assms(2) LoopDone 1(3)
    have "evs = [GetTickCount (w_startTime w), Printf line] @ evs'
            @ (case g_pEffect g3 of None \<Rightarrow> [] | Some e \<Rightarrow> [IDirectInputEffect_Stop e])"
      by simp
    with \<open>list_all quiet evs'\<close> have "list_all (\<lambda>e. \<not> failed_creation e) evs"
      by (simp add: quiet_unfailed split: option.splits)
    from unfailed_contradiction [OF this assms(3)] show ?thesis ..
  next
    case Returned
    with 1(3) have g': "g' = g3" by simp
    from e Returned obtain evs' j' eff' where r: "g_pEffect g3 = None" "list_all quiet evs'"
      "trace g3 = trace ?g @ evs' @ [IDirectInputDevice8_CreateEffect j' eff' None,
                                  Printf ''Failed to create oscillation effect. Error: 0x%lx'']"
      by (auto simp: ended_def)
    from r(3) assms(2) g'
    have "evs = [GetTickCount (w_startTime w), Printf line] @ evs'
            @ [IDirectInputDevice8_CreateEffect j' eff' None,
               Printf ''Failed to create oscillation effect. Error: 0x%lx'']"
      by simp
    with quiet_members [OF r(2)] have s: "\<forall>h. IDirectInputEffect_Stop h \<notin> set evs"
      by simp
    have o: "live_effects (trace g') = []" if "live_effects (trace g) = held (g_pEffect g)"
      using ApplyGentleOscillation_owned [OF assms(1) that] g' r(1) by (simp add: held_def)
    from r(1) g' s o show ?thesis
      by (simp add: stop_effect_def CleanupAll_trace)
  qed
qed

lemma session_after_failure_run:
  "ApplyGentleOscillation world_create_fails 2 session_ready = Some session_after_failure"
  by code_simp

theorem null_effect_after_failed_creation_witness:
  "IDirectInputDevice8_CreateEffect 2 (constant_force 1 25 1) None \<in> set (trace session_after_failure)
   \<and> g_pEffect session_after_failure = None
   \<and> trace (CleanupAll session_after_failure) =
        trace session_after_failure
        @ [IDirectInputDevice8_Unacquire 2, IDirectInputDevice8_Release 2, IDirectInput8_Release 1,
           Printf ''Cleanup complete'']
   \<and> live_effects (trace session_after_failure) = []"
proof -
  have a: "IDirectInputDevice8_CreateEffect 2 (constant_force 1 25 1) None \<in> set (trace session_after_failure)"
    by code_simp
  have b: "trace session_after_failure = trace session_ready @ trace session_after_failure"
    by (simp add: session_ready_def)
  have c: "live_effects (trace session_ready) = held (g_pEffect session_ready)"
    by (simp add: session_ready_def held_def)
  have d: "g_pJoystick session_after_failure = Some 2" "g_pDI session_after_failure = Some 1"
    by code_simp+
  from null_effect_after_failed_creation [OF session_after_failure_run b a] a c d show ?thesis
    by simp
qed


subsection \<open>No feedback requested\<close>









subsection \<open>A failed start\<close>

lemma forget_start_append [simp]: "forget_start (a @ b) = forget_start a @ forget_start b"
  by (simp add: forget_start_def)

lemma forget_start_Nil [simp]: "forget_start [] = []"
  by (simp add: forget_start_def)

lemma forget_start_Cons [simp]:
  "forget_start (e # tr) =
     (if e = Printf ''Failed to start oscillation effect. Error: 0x%lx'' then forget_start tr
      else start_blind e # forget_start tr)"
  by (simp add: forget_start_def)




lemma stop_effect_pointers [simp]:
  "g_pDI (stop_effect g) = g_pDI g" "g_pJoystick (stop_effect g) = g_pJoystick g"
  by (simp_all add: stop_effect_def split: option.splits)





lemma ApplyGentleOscillation_unfold:
  assumes "configure_pattern ft = (si, sm, line)"
  shows "ApplyGentleOscillation w ft g =
     (case oscillation_loop (w_startTime w + OSCILLATION_DURATION) si sm (w_polls w) 1 (w_startTime w)
             (emit (Printf line) (emit (GetTickCount (w_startTime w)) g)) of
        None \<Rightarrow> None
      | Some (how, g3) \<Rightarrow> Some (case how of Returned \<Rightarrow> g3 | LoopDone \<Rightarrow> stop_effect g3))"
  unfolding ApplyGentleOscillation_def Let_def assms prod.case
  by (simp split: option.splits loop_exit.splits)




lemma InitializeDirectInput_starts_succeed [simp]:
  "InitializeDirectInput (starts_succeed w) g = InitializeDirectInput w g"
  by (simp add: InitializeDirectInput_def starts_succeed_def Let_def split: option.splits)







subsection \<open>The switches of a run\<close>

lemma switches_append [simp]:
  "switches t (tr @ evs) = switches t tr @ switches (reading t tr) evs"
  by (induction t tr rule: switches.induct) simp_all



















subsection \<open>Runs return\<close>

text \<open>
  The model gives no result only when the readings of the tick counter run out while the
  loop is still going. As soon as one of the readings is not below the end time, the
  program returns, whatever else the platform does: the statements above about returning
  runs are about all such runs.
\<close>

lemma oscillation_pass_no_fault:
  assumes "g_pJoystick g \<noteq> None"
  shows "oscillation_pass E si sm p d l g \<noteq> Fault"
  using assms by (auto simp: oscillation_pass_def Let_def split: option.splits)

lemma oscillation_pass_leaves:
  assumes "\<not> tick p < E"
  shows "oscillation_pass E si sm p d l g = Leave LoopDone (emit (GetTickCount (tick p)) g)"
  using assms by (simp add: oscillation_pass_def Let_def)

lemma oscillation_loop_returns:
  assumes "g_pJoystick g \<noteq> None" and "\<exists>p\<in>set ps. \<not> tick p < E"
  shows "oscillation_loop E si sm ps d l g \<noteq> None"
  using assms
proof (induction ps arbitrary: d l g)
  case Nil
  then show ?case by simp
next
  case (Cons p ps)
  show ?case
  proof (cases "oscillation_pass E si sm p d l g")
    case (Again d' l' g')
    then have "tick p < E"
      using oscillation_pass_leaves [of p E si sm d l g] by auto
    with Cons.prems(2) have r: "\<exists>p\<in>set ps. \<not> tick p < E"
      by simp
    from oscillation_pass_frame [OF disjI1 [OF Again]] Cons.prems(1) have "g_pJoystick g' \<noteq> None"
      by simp
    from Cons.IH [OF this r] Again show ?thesis
      by simp
  next
    case (Leave how g')
    then show ?thesis by simp
  next
    case Fault
    with oscillation_pass_no_fault [OF Cons.prems(1)] show ?thesis
      by blast
  qed
qed

lemma main_returns:
  assumes "\<exists>p\<in>set (w_polls w). \<not> tick p < w_startTime w + OSCILLATION_DURATION"
  shows "main w arg \<noteq> None"
proof (cases "w_CoInitialize w")
  case False
  then show ?thesis by (simp add: main_def)
next
  case True
  obtain ok g2 where i: "InitializeDirectInput w after_CoInitialize = (ok, g2)"
    by (cases "InitializeDirectInput w after_CoInitialize") auto
  show ?thesis
  proof (cases "ok \<and> parse_feedbackType arg \<noteq> FEEDBACK_NONE")
    case False
    with True i show ?thesis
      by (cases ok) (simp_all add: main_def after_CoInitialize_def [symmetric])
  next
    case y: True
    obtain si sm line where c: "configure_pattern (parse_feedbackType arg) = (si, sm, line)"
      by (cases "configure_pattern (parse_feedbackType arg)") auto
    from InitializeDirectInput_start [OF i] y
    have "g_pJoystick (emit (Printf line) (emit (GetTickCount (w_startTime w)) g2)) \<noteq> None"
      by simp
    from oscillation_loop_returns [OF this assms]
    have "ApplyGentleOscillation w (parse_feedbackType arg) g2 \<noteq> None"
      unfolding ApplyGentleOscillation_unfold [OF c] by (auto split: option.splits)
    with True i y show ?thesis
      by (auto simp: main_def after_CoInitialize_def [symmetric])
  qed
qed

end
